theory Spec2Isabelle
  imports Complex_Main "HOL-Library.Sublist"
begin

section \<open>Python strings\<close>

text \<open>
  A Python \<^verbatim>\<open>str\<close> is modelled as a \<^typ>\<open>string\<close>: a list of 8-bit characters, each read
  as the Unicode code point of the same number (U+0000 to U+00FF). The character classes
  below are Python's on that range. Code points above U+00FF are outside the model.
\<close>

definition ord :: "char \<Rightarrow> nat" where
  "ord c = of_char c"

definition chr :: "nat \<Rightarrow> char" where
  "chr n = char_of n"

text \<open>\<^verbatim>\<open>str.isspace\<close> on one character; the separators of \<^verbatim>\<open>str.split()\<close> and the
  characters removed by \<^verbatim>\<open>str.strip()\<close>.\<close>

definition isspace :: "char \<Rightarrow> bool" where
  "isspace c = (let n = ord c in
     (9 \<le> n \<and> n \<le> 13) \<or> (28 \<le> n \<and> n \<le> 32) \<or> n = 133 \<or> n = 160)"

definition isupper :: "char \<Rightarrow> bool" where
  "isupper c = (let n = ord c in
     (65 \<le> n \<and> n \<le> 90) \<or> (192 \<le> n \<and> n \<le> 222 \<and> n \<noteq> 215))"

definition isdigit :: "char \<Rightarrow> bool" where
  "isdigit c = (let n = ord c in 48 \<le> n \<and> n \<le> 57)"

text \<open>The class \<^verbatim>\<open>\w\<close> of the \<^verbatim>\<open>re\<close> module for \<^verbatim>\<open>str\<close> patterns: alphanumeric
  characters and the underscore.\<close>

definition is_word_char :: "char \<Rightarrow> bool" where
  "is_word_char c = (let n = ord c in
     (48 \<le> n \<and> n \<le> 57) \<or> (65 \<le> n \<and> n \<le> 90) \<or> n = 95 \<or> (97 \<le> n \<and> n \<le> 122)
     \<or> n = 170 \<or> n = 178 \<or> n = 179 \<or> n = 181 \<or> n = 185 \<or> n = 186
     \<or> (188 \<le> n \<and> n \<le> 190) \<or> (192 \<le> n \<and> n \<le> 214) \<or> (216 \<le> n \<and> n \<le> 246)
     \<or> (248 \<le> n \<and> n \<le> 255))"

definition lower_char :: "char \<Rightarrow> char" where
  "lower_char c = (if isupper c then chr (ord c + 32) else c)"

text \<open>\<^verbatim>\<open>s.lower()\<close>\<close>

definition lower :: "string \<Rightarrow> string" where
  "lower s = map lower_char s"

text \<open>\<^verbatim>\<open>s.strip()\<close>\<close>

definition strip :: "string \<Rightarrow> string" where
  "strip s = rev (dropWhile isspace (rev (dropWhile isspace s)))"

text \<open>\<^verbatim>\<open>s.split()\<close>: the maximal runs of non-whitespace characters, in order. The first
  argument is the token being read.\<close>

fun split_from :: "string \<Rightarrow> string \<Rightarrow> string list" where
  "split_from cur [] = (if cur = [] then [] else [cur])"
| "split_from cur (c # cs) =
     (if isspace c then (if cur = [] then split_from [] cs else cur # split_from [] cs)
      else split_from (cur @ [c]) cs)"

definition split :: "string \<Rightarrow> string list" where
  "split s = split_from [] s"

text \<open>\<^verbatim>\<open>sub in s\<close> on strings is \<^const>\<open>sublist\<close>: \<^term>\<open>sublist sub s\<close> holds when
  \<^term>\<open>s = ps @ sub @ ss\<close> for some \<^term>\<open>ps\<close> and \<^term>\<open>ss\<close>.\<close>

text \<open>\<^verbatim>\<open>s.replace(old, new)\<close>: the occurrences of \<^verbatim>\<open>old\<close> are found from the left and do
  not overlap. For an empty \<^verbatim>\<open>old\<close> Python inserts \<^verbatim>\<open>new\<close> before every character and at
  the end.\<close>

function replace_nonempty :: "string \<Rightarrow> string \<Rightarrow> string \<Rightarrow> string" where
  "replace_nonempty old new [] = []"
| "replace_nonempty old new (c # cs) =
     (if old \<noteq> [] \<and> prefix old (c # cs)
      then new @ replace_nonempty old new (drop (length old) (c # cs))
      else c # replace_nonempty old new cs)"
  by pat_completeness auto
termination
  by (relation "measure (\<lambda>(old, new, s). length s)") (auto simp: neq_Nil_conv)

definition replace :: "string \<Rightarrow> string \<Rightarrow> string \<Rightarrow> string" where
  "replace s old new =
     (if old = [] then new @ concat (map (\<lambda>c. c # new) s) else replace_nonempty old new s)"

text \<open>\<^verbatim>\<open>sep.join(xs)\<close>\<close>

fun join :: "string \<Rightarrow> string list \<Rightarrow> string" where
  "join sep [] = []"
| "join sep [x] = x"
| "join sep (x # y # ys) = x @ sep @ join sep (y # ys)"

text \<open>\<^verbatim>\<open>str(n)\<close> for an integer, as an f-string formats it.\<close>

function str_nat :: "nat \<Rightarrow> string" where
  "str_nat n = (if n < 10 then [chr (48 + n)] else str_nat (n div 10) @ [chr (48 + n mod 10)])"
  by pat_completeness auto
termination
  by (relation "measure id") auto

definition str_int :: "int \<Rightarrow> string" where
  "str_int i = (if i < 0 then CHR ''-'' # str_nat (nat (- i)) else str_nat (nat i))"

text \<open>
  \<^verbatim>\<open>int(s)\<close> in base 10: whitespace around the literal is dropped, then an optional sign,
  then decimal digits, where single underscores may stand between two digits. Anything
  else raises \<^verbatim>\<open>ValueError\<close>, here \<^const>\<open>None\<close>. The whitespace \<^verbatim>\<open>int\<close> accepts is tab to
  carriage return, the space, and the non-ASCII spaces; the ASCII separators U+001C to
  U+001F are whitespace for \<^verbatim>\<open>strip\<close> and \<^verbatim>\<open>split\<close> but not for \<^verbatim>\<open>int\<close>. The optional limit
  on the number of digits (\<^verbatim>\<open>sys.set_int_max_str_digits\<close>) is not modelled.
\<close>

definition int_space :: "char \<Rightarrow> bool" where
  "int_space c = (let n = ord c in (9 \<le> n \<and> n \<le> 13) \<or> n = 32 \<or> n = 133 \<or> n = 160)"

definition digit_val :: "char \<Rightarrow> nat" where
  "digit_val c = ord c - 48"

fun parse_digits :: "nat \<Rightarrow> string \<Rightarrow> nat option" where
  "parse_digits acc [] = Some acc"
| "parse_digits acc [c] = (if isdigit c then Some (10 * acc + digit_val c) else None)"
| "parse_digits acc (c # d # ds) =
     (if isdigit c then parse_digits (10 * acc + digit_val c) (d # ds)
      else if c = CHR ''_'' \<and> isdigit d then parse_digits (10 * acc + digit_val d) ds
      else None)"

definition parse_unsigned :: "string \<Rightarrow> nat option" where
  "parse_unsigned s =
     (case s of [] \<Rightarrow> None
      | c # cs \<Rightarrow> if isdigit c then parse_digits (digit_val c) cs else None)"

definition py_int :: "string \<Rightarrow> int option" where
  "py_int s =
     (let t = rev (dropWhile int_space (rev (dropWhile int_space s)))
      in case t of
           [] \<Rightarrow> None
         | c # cs \<Rightarrow>
             if c = CHR ''-'' then map_option (\<lambda>n. - int n) (parse_unsigned cs)
             else if c = CHR ''+'' then map_option int (parse_unsigned cs)
             else map_option int (parse_unsigned t))"

subsection \<open>Searching a literal between word boundaries\<close>

text \<open>
  \<^verbatim>\<open>re.search(r"\b" + re.escape(d) + r"\b", s)\<close>: \<^verbatim>\<open>re.escape\<close> makes the pattern match
  \<^verbatim>\<open>d\<close> literally, and \<^verbatim>\<open>\b\<close> matches the empty string at a position where exactly one
  of the characters before and after it is a word character (a missing character counts
  as a non-word character). The search tries the positions from the left.
\<close>

definition word_at :: "string \<Rightarrow> nat \<Rightarrow> bool" where
  "word_at s i = (i < length s \<and> is_word_char (s ! i))"

definition at_boundary :: "string \<Rightarrow> nat \<Rightarrow> bool" where
  "at_boundary s i = ((0 < i \<and> word_at s (i - 1)) \<noteq> word_at s i)"

definition match_at :: "string \<Rightarrow> string \<Rightarrow> nat \<Rightarrow> bool" where
  "match_at d s i =
     (at_boundary s i \<and> take (length d) (drop i s) = d \<and> at_boundary s (i + length d))"

definition re_search_word :: "string \<Rightarrow> string \<Rightarrow> bool" where
  "re_search_word d s = list_ex (match_at d s) [0..<Suc (length s)]"

section \<open>Settings\<close>

text \<open>The parts of \<^verbatim>\<open>Settings\<close> read by the executor and the safety validator
  (\<^verbatim>\<open>config/settings.py\<close>), with their defaults.\<close>

record execution_config =
  command_timeout :: int
  max_output_size :: int
  max_concurrent_commands :: int
  working_directory :: "string option"

record safety_config =
  require_confirmation :: bool
  protected_processes :: "string list"
  protected_pids :: "int list"
  dangerous_commands :: "string list"

record logging_config =
  log_commands :: bool
  history_file :: string

record settings =
  execution :: execution_config
  safety :: safety_config
  logging :: logging_config

definition default_execution :: execution_config where
  "default_execution =
     \<lparr>command_timeout = 30, max_output_size = 10485760, max_concurrent_commands = 3,
      working_directory = None\<rparr>"

definition default_safety :: safety_config where
  "default_safety =
     \<lparr>require_confirmation = True,
      protected_processes = [''systemd'', ''init'', ''sshd'', ''NetworkManager'', ''dbus-daemon''],
      protected_pids = [1],
      dangerous_commands =
        [''rm'', ''kill'', ''killall'', ''pkill'', ''systemctl stop'', ''systemctl disable'',
         ''systemctl mask'', ''reboot'', ''shutdown'', ''poweroff'']\<rparr>"

definition default_logging :: logging_config where
  "default_logging = \<lparr>log_commands = True, history_file = ''~/.terminalbot_history''\<rparr>"

definition default_settings :: settings where
  "default_settings =
     \<lparr>execution = default_execution, safety = default_safety, logging = default_logging\<rparr>"

section \<open>The safety validator\<close>

subsection \<open>\<^verbatim>\<open>is_dangerous_command\<close>\<close>

text \<open>The loop over \<^verbatim>\<open>dangerous_commands\<close> returns at the first entry that matches.\<close>

fun dangerous_loop :: "string list \<Rightarrow> string \<Rightarrow> bool" where
  "dangerous_loop [] command_lower = False"
| "dangerous_loop (dangerous_cmd # rest) command_lower =
     (if re_search_word dangerous_cmd command_lower then True
      else dangerous_loop rest command_lower)"

definition is_dangerous_command :: "settings \<Rightarrow> string \<Rightarrow> bool" where
  "is_dangerous_command st command =
     (let command_lower = strip (lower command)
      in dangerous_loop (dangerous_commands (safety st)) command_lower)"

subsection \<open>The process table\<close>

text \<open>
  The validator reads the operating system's process table through \<^verbatim>\<open>psutil\<close>. The table
  is an input of the model. \<^verbatim>\<open>psutil.Process(pid)\<close> raises \<^verbatim>\<open>ValueError\<close> for a negative
  \<^verbatim>\<open>pid\<close> and \<^verbatim>\<open>NoSuchProcess\<close> for a \<^verbatim>\<open>pid\<close> that is not running; reading an attribute of a
  process raises \<^verbatim>\<open>NoSuchProcess\<close> or \<^verbatim>\<open>AccessDenied\<close>, or returns its value.
  \<^verbatim>\<open>psutil.process_iter(["pid", "name", "cmdline"])\<close> yields the running processes with
  their name and, where it could be read, their command line. Floating-point values are
  carried as reals; the validator never computes with them.
\<close>

datatype psutil_error = NoSuchProcess | AccessDenied

datatype lookup_error = ValueError | PsutilError psutil_error

record process =
  proc_name :: "psutil_error + string"
  proc_cmdline :: "psutil_error + string list"
  proc_cpu_percent :: "psutil_error + real"
  proc_memory_percent :: "psutil_error + real"

record os_state =
  process_table :: "int \<Rightarrow> process option"
  process_iter :: "(int \<times> string \<times> string list option) list"

definition psutil_Process :: "os_state \<Rightarrow> int \<Rightarrow> lookup_error + process" where
  "psutil_Process os pid =
     (if pid < 0 then Inl ValueError
      else case process_table os pid of
             None \<Rightarrow> Inl (PsutilError NoSuchProcess)
           | Some proc \<Rightarrow> Inr proc)"

subsection \<open>\<^verbatim>\<open>is_protected_process\<close>\<close>

definition protected_reason :: "string \<Rightarrow> string" where
  "protected_reason protected =
     [CHR 0x27] @ protected @ [CHR 0x27] @ '' is a protected system process''"

definition protected_pid_reason :: "int \<Rightarrow> string" where
  "protected_pid_reason pid = ''PID '' @ str_int pid @ '' is a protected system process''"

text \<open>The loop over \<^verbatim>\<open>protected_processes\<close> returns at the first name that occurs in
  the lowercased process name.\<close>

fun protected_loop :: "string list \<Rightarrow> string \<Rightarrow> bool \<times> string option" where
  "protected_loop [] process_name_lower = (False, None)"
| "protected_loop (protected # rest) process_name_lower =
     (if sublist (lower protected) process_name_lower
      then (True, Some (protected_reason protected))
      else protected_loop rest process_name_lower)"

definition check_process_name :: "settings \<Rightarrow> string \<Rightarrow> bool \<times> string option" where
  "check_process_name st process_name =
     protected_loop (protected_processes (safety st)) (lower process_name)"

text \<open>A \<^verbatim>\<open>ValueError\<close>, from \<^verbatim>\<open>int\<close> or from \<^verbatim>\<open>psutil.Process\<close>, reaches the outer handler,
  which takes the identifier itself as the process name.\<close>

definition is_protected_process :: "settings \<Rightarrow> os_state \<Rightarrow> string \<Rightarrow> bool \<times> string option" where
  "is_protected_process st os identifier =
     (case py_int identifier of
        None \<Rightarrow> check_process_name st identifier
      | Some pid \<Rightarrow>
          if pid \<in> set (protected_pids (safety st))
          then (True, Some (protected_pid_reason pid))
          else (case psutil_Process os pid of
                  Inl ValueError \<Rightarrow> check_process_name st identifier
                | Inl (PsutilError e) \<Rightarrow> (False, None)
                | Inr proc \<Rightarrow>
                    (case proc_name proc of
                       Inl e \<Rightarrow> (False, None)
                     | Inr process_name \<Rightarrow> check_process_name st process_name)))"

subsection \<open>\<^verbatim>\<open>_get_process_info\<close>\<close>

text \<open>The three dictionaries the validator builds: the details of one process
  (\<^verbatim>\<open>pid\<close>, \<^verbatim>\<open>name\<close>, \<^verbatim>\<open>cmdline\<close>, \<^verbatim>\<open>cpu_percent\<close>, \<^verbatim>\<open>memory_percent\<close>), the processes
  matching a name (\<^verbatim>\<open>matching_processes\<close>, \<^verbatim>\<open>count\<close>), and a service with the action
  on it (\<^verbatim>\<open>service\<close>, \<^verbatim>\<open>action\<close>).\<close>

datatype process_info =
    ProcessDetails int string string real real
  | MatchingProcesses "(int \<times> string \<times> string) list" nat
  | ServiceAction string string

definition process_details :: "int \<Rightarrow> process \<Rightarrow> process_info option" where
  "process_details pid proc =
     (case proc_name proc of Inl e \<Rightarrow> None | Inr name \<Rightarrow>
      case proc_cmdline proc of Inl e \<Rightarrow> None | Inr cmdline \<Rightarrow>
      case proc_cpu_percent proc of Inl e \<Rightarrow> None | Inr cpu \<Rightarrow>
      case proc_memory_percent proc of Inl e \<Rightarrow> None | Inr mem \<Rightarrow>
        Some (ProcessDetails pid name (join '' '' cmdline) cpu mem))"

definition matching_processes :: "os_state \<Rightarrow> string \<Rightarrow> process_info option" where
  "matching_processes os identifier =
     (let processes =
            map (\<lambda>(pid, name, cmdline).
                   (pid, name, join '' '' (case cmdline of None \<Rightarrow> [] | Some c \<Rightarrow> c)))
              (filter (\<lambda>(pid, name, cmdline). sublist (lower identifier) (lower name))
                 (process_iter os))
      in if processes \<noteq> [] then Some (MatchingProcesses processes (length processes))
         else None)"

definition get_process_info :: "os_state \<Rightarrow> string \<Rightarrow> process_info option" where
  "get_process_info os identifier =
     (case py_int identifier of
        None \<Rightarrow> matching_processes os identifier
      | Some pid \<Rightarrow>
          (case psutil_Process os pid of
             Inl ValueError \<Rightarrow> matching_processes os identifier
           | Inl (PsutilError e) \<Rightarrow> None
           | Inr proc \<Rightarrow> process_details pid proc))"

subsection \<open>\<^verbatim>\<open>validate_kill_command\<close>\<close>

definition validate_kill_command ::
  "settings \<Rightarrow> os_state \<Rightarrow> string \<Rightarrow> bool \<times> string option \<times> process_info option" where
  "validate_kill_command st os command =
     (let tokens = split command in
      if tokens = [] then (False, Some ''Empty command'', None)
      else
        let cmd = hd tokens in
        if cmd \<in> set [''kill'', ''killall'', ''pkill''] then
          if length tokens < 2 then (False, Some (''No target specified for '' @ cmd), None)
          else
            let target = last tokens;
                (is_protected, reason) = is_protected_process st os target
            in if is_protected then (False, reason, None)
               else (True, None, get_process_info os target)
        else if sublist ''systemctl'' cmd then
          if length tokens < 3 then (False, Some ''Incomplete systemctl command'', None)
          else
            let action = (if length tokens > 1 then tokens ! 1 else []);
                service = (if length tokens > 2 then tokens ! 2 else [])
            in if action \<in> set [''stop'', ''disable'', ''mask''] then
                 let service_name = replace service ''.service'' [];
                     (is_protected, reason) = is_protected_process st os service_name
                 in if is_protected then (False, reason, None)
                    else (True, None, Some (ServiceAction service action))
               else (True, None, None)
        else (True, None, None))"

subsection \<open>\<^verbatim>\<open>requires_confirmation\<close>\<close>

definition is_kill_variant :: "string \<Rightarrow> bool" where
  "is_kill_variant command =
     list_ex (\<lambda>kill_cmd. sublist kill_cmd (lower command))
       [''kill'', ''killall'', ''pkill'', ''systemctl stop'']"

definition terminate_reason :: "process_info option \<Rightarrow> string" where
  "terminate_reason process_info =
     ''This command will terminate processes'' @
     (case process_info of
        Some (MatchingProcesses processes count) \<Rightarrow>
          '' ('' @ str_int (int count) @ '' matching processes)''
      | Some (ServiceAction service action) \<Rightarrow> '' (service: '' @ service @ '')''
      | _ \<Rightarrow> [])"

definition requires_confirmation :: "settings \<Rightarrow> os_state \<Rightarrow> string \<Rightarrow> bool \<times> string option" where
  "requires_confirmation st os command =
     (if \<not> require_confirmation (safety st) then (False, None)
      else if is_dangerous_command st command then
        if is_kill_variant command then
          (case validate_kill_command st os command of
             (is_safe, error, process_info) \<Rightarrow>
               if \<not> is_safe then (True, error)
               else (True, Some (terminate_reason process_info)))
        else (True, Some ''This is a potentially destructive command'')
      else (False, None))"

section \<open>The command executor\<close>

subsection \<open>\<^verbatim>\<open>CommandResult\<close>\<close>

record command_result =
  command_text :: string
  returncode :: int
  stdout :: string
  stderr :: string
  execution_time :: real
  timed_out :: bool
  truncated :: bool
  result_working_directory :: string

definition success :: "command_result \<Rightarrow> bool" where
  "success r = (returncode r = 0 \<and> \<not> timed_out r)"

definition output_text :: "command_result \<Rightarrow> string" where
  "output_text r = stdout r @ stderr r"

subsection \<open>The operating system seen by one call\<close>

text \<open>
  What the operating system does during one call of \<^verbatim>\<open>execute\<close> is an input of the model.
  Every library call of the function has its outcomes: it returns, or it raises an
  exception, which carries the text \<^verbatim>\<open>str(e)\<close>. The two waits on \<^verbatim>\<open>process.communicate()\<close>
  can also end in \<^verbatim>\<open>asyncio.TimeoutError\<close>, and killing the process group in
  \<^verbatim>\<open>ProcessLookupError\<close>. The captured bytes are given already decoded:
  \<^verbatim>\<open>decode("utf-8", errors="replace")\<close> returns a string for every byte sequence.
  The field \<^verbatim>\<open>exit_status\<close> is \<^verbatim>\<open>process.returncode\<close> at the moment the result is built,
  \<^const>\<open>None\<close> while the process has not been reaped. Times are reals.
\<close>

datatype exn = Exception string

datatype spawn_outcome = Spawned | SpawnRaises string

datatype communicate_outcome = Communicated string string | WaitTimeout | CommunicateRaises string

datatype kill_outcome = Killed | ProcessLookupError | KillRaises string

record shell_run =
  spawn :: spawn_outcome
  communicate :: communicate_outcome
  kill_group :: kill_outcome
  communicate_after_kill :: communicate_outcome
  exit_status :: "int option"

record exec_env =
  getcwd :: "exn + string"
  shell :: "string \<Rightarrow> string \<Rightarrow> int \<Rightarrow> shell_run"
  loop_time_start :: real
  loop_time_end :: real
  now_isoformat :: string
  history_writable :: bool

text \<open>The effects of a call: the child processes it started, each with its command and
  working directory, and the lines of the history file.\<close>

record world =
  spawned :: "(string \<times> string) list"
  history :: "string list"

subsection \<open>\<^verbatim>\<open>_log_command\<close>\<close>

definition log_command :: "settings \<Rightarrow> exec_env \<Rightarrow> string \<Rightarrow> command_result \<Rightarrow> world \<Rightarrow> world" where
  "log_command st env command result w =
     (if \<not> log_commands (logging st) then w
      else if history_writable env then
        w\<lparr>history := history w @
             [now_isoformat env @ '' | '' @ (if success result then ''SUCCESS'' else ''FAILED'')
                @ '' | '' @ command @ [CHR 0x0A]]\<rparr>
      else w)"

subsection \<open>The output size limit\<close>

definition marker :: string where
  "marker = CHR 0x0A # ''[... OUTPUT TRUNCATED ...]''"

text \<open>\<^verbatim>\<open>s[:k]\<close>: a negative \<^verbatim>\<open>k\<close> counts from the end.\<close>

definition slice_to :: "string \<Rightarrow> int \<Rightarrow> string" where
  "slice_to s k = (if k < 0 then take (length s - nat (- k)) s else take (nat k) s)"

text \<open>
  \<^verbatim>\<open>int(a / b)\<close> for integers \<^verbatim>\<open>a\<close> and a positive \<^verbatim>\<open>b\<close>. The division of two integers
  gives the double nearest to the exact quotient, a tie going to the even significand;
  \<^verbatim>\<open>int\<close> then drops the fractional part. A double has a significand of 53 bits: with
  \<^verbatim>\<open>e\<close> the exponent of the quotient (\<^verbatim>\<open>2 ** e \<le> a / b < 2 ** (e + 1)\<close>), the quotient is
  rounded to a multiple of \<^verbatim>\<open>2 ** (e - 52)\<close>. Python raises \<^verbatim>\<open>OverflowError\<close> when the
  rounded quotient reaches \<^verbatim>\<open>2 ** 1024\<close>, which is not modelled: a Python string has
  fewer than \<^verbatim>\<open>2 ** 63\<close> characters, so with a non-negative limit the quotient stays
  below that, and only a negative limit of magnitude \<^verbatim>\<open>2 ** 1024\<close> or more reaches it.
\<close>

text \<open>\<^verbatim>\<open>n.bit_length()\<close> for a positive \<^verbatim>\<open>n\<close>\<close>

function bit_length :: "int \<Rightarrow> nat" where
  "bit_length n = (if n \<le> 0 then 0 else Suc (bit_length (n div 2)))"
  by pat_completeness auto
termination
  by (relation "measure nat") auto

declare bit_length.simps [simp del]

text \<open>\<^verbatim>\<open>b * 2 ** e \<le> a\<close> for an exponent \<^verbatim>\<open>e\<close> of either sign\<close>

definition scaled_le :: "int \<Rightarrow> int \<Rightarrow> int \<Rightarrow> bool" where
  "scaled_le b e a = (if 0 \<le> e then b * 2 ^ nat e \<le> a else b \<le> a * 2 ^ nat (- e))"

text \<open>The exponent of \<^verbatim>\<open>a / b\<close> for positive \<^verbatim>\<open>a\<close> and \<^verbatim>\<open>b\<close>\<close>

definition quotient_exponent :: "int \<Rightarrow> int \<Rightarrow> int" where
  "quotient_exponent a b =
     (let d = int (bit_length a) - int (bit_length b)
      in if scaled_le b d a then d else d - 1)"

text \<open>The integer nearest to \<^verbatim>\<open>num / den\<close> for a positive \<^verbatim>\<open>den\<close>, a tie going to the even
  one\<close>

definition round_half_even :: "int \<Rightarrow> int \<Rightarrow> int" where
  "round_half_even num den =
     (let f = num div den; r = num mod den
      in if 2 * r < den then f
         else if den < 2 * r then f + 1
         else if even f then f else f + 1)"

definition int_of_true_division :: "int \<Rightarrow> int \<Rightarrow> int" where
  "int_of_true_division a b =
     (if a = 0 then 0
      else
        let n = \<bar>a\<bar>;
            e = quotient_exponent n b;
            v = (if e \<le> 52
                 then round_half_even (n * 2 ^ nat (52 - e)) b div 2 ^ nat (52 - e)
                 else round_half_even n (b * 2 ^ nat (e - 52)) * 2 ^ nat (e - 52))
        in if a < 0 then - v else v)"

definition stdout_limit :: "int \<Rightarrow> string \<Rightarrow> string \<Rightarrow> int" where
  "stdout_limit max_size out err =
     int_of_true_division (max_size * int (length out)) (int (length out) + int (length err))"

definition stderr_limit :: "int \<Rightarrow> string \<Rightarrow> string \<Rightarrow> int" where
  "stderr_limit max_size out err = max_size - stdout_limit max_size out err"

text \<open>Lines 169 to 182 of \<^verbatim>\<open>execute\<close>. With a negative limit and no output at all the
  division raises \<^verbatim>\<open>ZeroDivisionError\<close>.\<close>

definition enforce_limit :: "int \<Rightarrow> string \<Rightarrow> string \<Rightarrow> exn + (string \<times> string \<times> bool)" where
  "enforce_limit max_size out err =
     (let total_output_size = int (length out) + int (length err)
      in if total_output_size > max_size then
           if total_output_size = 0 then Inl (Exception ''division by zero'')
           else Inr (slice_to out (stdout_limit max_size out err) @ marker,
                     slice_to err (stderr_limit max_size out err) @ marker, True)
         else Inr (out, err, False))"

subsection \<open>\<^verbatim>\<open>execute\<close>\<close>

text \<open>The working directory: the argument, else the configured directory when it is not
  empty, else \<^verbatim>\<open>os.getcwd()\<close>, which raises when the current directory no longer
  exists. This is computed before the \<^verbatim>\<open>try\<close> block.\<close>

definition resolve_cwd :: "settings \<Rightarrow> exec_env \<Rightarrow> string option \<Rightarrow> exn + string" where
  "resolve_cwd st env cwd =
     (case cwd of
        Some d \<Rightarrow> Inr d
      | None \<Rightarrow>
          (case working_directory (execution st) of
             Some d \<Rightarrow> if d \<noteq> [] then Inr d else getcwd env
           | None \<Rightarrow> getcwd env))"

text \<open>Waiting for the process: the captured output and whether the timeout fired, or the
  exception that leaves the \<^verbatim>\<open>try\<close> block.\<close>

definition wait_for_output :: "shell_run \<Rightarrow> exn + (string \<times> string \<times> bool)" where
  "wait_for_output run =
     (case communicate run of
        Communicated out err \<Rightarrow> Inr (out, err, False)
      | CommunicateRaises m \<Rightarrow> Inl (Exception m)
      | WaitTimeout \<Rightarrow>
          (case kill_group run of
             KillRaises m \<Rightarrow> Inl (Exception m)
           | _ \<Rightarrow>
               (case communicate_after_kill run of
                  Communicated out err \<Rightarrow> Inr (out, err, True)
                | WaitTimeout \<Rightarrow> Inr ([], ''Command timed out and was terminated'', True)
                | CommunicateRaises m \<Rightarrow> Inl (Exception m))))"

text \<open>\<^verbatim>\<open>process.returncode or (124 if timed_out else 0)\<close>\<close>

definition result_returncode :: "int option \<Rightarrow> bool \<Rightarrow> int" where
  "result_returncode rc timed_out_flag =
     (case rc of
        Some n \<Rightarrow> if n \<noteq> 0 then n else (if timed_out_flag then 124 else 0)
      | None \<Rightarrow> if timed_out_flag then 124 else 0)"

text \<open>The body of the \<^verbatim>\<open>try\<close> block: \<^const>\<open>Inl\<close> is an exception raised inside it.\<close>

definition try_execute ::
  "settings \<Rightarrow> exec_env \<Rightarrow> string \<Rightarrow> int \<Rightarrow> string \<Rightarrow> world \<Rightarrow> (exn + command_result) \<times> world" where
  "try_execute st env command timeout cwd w =
     (let run = shell env command cwd timeout in
      case spawn run of
        SpawnRaises m \<Rightarrow> (Inl (Exception m), w)
      | Spawned \<Rightarrow>
          let w1 = w\<lparr>spawned := spawned w @ [(command, cwd)]\<rparr> in
          (case wait_for_output run of
             Inl e \<Rightarrow> (Inl e, w1)
           | Inr (out, err, timed_out_flag) \<Rightarrow>
               (case enforce_limit (max_output_size (execution st)) out err of
                  Inl e \<Rightarrow> (Inl e, w1)
                | Inr (out', err', truncated_flag) \<Rightarrow>
                    let result =
                          \<lparr>command_text = command,
                           returncode = result_returncode (exit_status run) timed_out_flag,
                           stdout = out', stderr = err',
                           execution_time = loop_time_end env - loop_time_start env,
                           timed_out = timed_out_flag, truncated = truncated_flag,
                           result_working_directory = cwd\<rparr>
                    in (Inr result, log_command st env command result w1))))"

text \<open>The \<^verbatim>\<open>try\<close> block with its handler \<^verbatim>\<open>except Exception\<close>.\<close>

definition run_command ::
  "settings \<Rightarrow> exec_env \<Rightarrow> string \<Rightarrow> int \<Rightarrow> string \<Rightarrow> world \<Rightarrow> command_result \<times> world" where
  "run_command st env command timeout cwd w =
     (case try_execute st env command timeout cwd w of
        (Inr result, w') \<Rightarrow> (result, w')
      | (Inl (Exception m), w') \<Rightarrow>
          let result =
                \<lparr>command_text = command, returncode = 1, stdout = [],
                 stderr = ''Execution error: '' @ m,
                 execution_time = loop_time_end env - loop_time_start env,
                 timed_out = False, truncated = False, result_working_directory = cwd\<rparr>
          in (result, log_command st env command result w'))"

definition dry_run_result :: "string \<Rightarrow> string \<Rightarrow> command_result" where
  "dry_run_result command cwd =
     \<lparr>command_text = command, returncode = 0,
      stdout = ''[DRY RUN] Command would be executed'', stderr = [], execution_time = 0,
      timed_out = False, truncated = False, result_working_directory = cwd\<rparr>"

text \<open>\<^verbatim>\<open>execute(command, timeout, cwd, dry_run)\<close>: \<^const>\<open>Inl\<close> is an exception that leaves
  the function.\<close>

definition execute ::
  "settings \<Rightarrow> exec_env \<Rightarrow> string \<Rightarrow> int option \<Rightarrow> string option \<Rightarrow> bool \<Rightarrow> world
     \<Rightarrow> (exn + command_result) \<times> world" where
  "execute st env command timeout cwd dry_run w =
     (let timeout' = (case timeout of None \<Rightarrow> command_timeout (execution st) | Some t \<Rightarrow> t)
      in case resolve_cwd st env cwd of
           Inl e \<Rightarrow> (Inl e, w)
         | Inr cwd' \<Rightarrow>
             if dry_run then (Inr (dry_run_result command cwd'), w)
             else (case run_command st env command timeout' cwd' w of
                     (result, w') \<Rightarrow> (Inr result, w')))"

section \<open>Notions used to state the properties\<close>

text \<open>A literal occurs in a string between word boundaries: the string splits into a part
  before the literal, the literal, and a part after it, and at each of the two seams
  exactly one side is a word character (the end of the string counts as a non-word
  character).\<close>

definition boundary_between :: "string \<Rightarrow> string \<Rightarrow> bool" where
  "boundary_between l r =
     ((l \<noteq> [] \<and> is_word_char (last l)) \<noteq> (r \<noteq> [] \<and> is_word_char (hd r)))"

definition occurs_as_word :: "string \<Rightarrow> string \<Rightarrow> bool" where
  "occurs_as_word d s =
     (\<exists>pre post. s = pre @ d @ post \<and> boundary_between pre (d @ post)
        \<and> boundary_between (pre @ d) post)"

text \<open>A process name contains the protected name \<^verbatim>\<open>p\<close> of the settings as a substring,
  letter case ignored.\<close>

definition contains_protected :: "settings \<Rightarrow> string \<Rightarrow> string \<Rightarrow> bool" where
  "contains_protected st p name =
     (p \<in> set (protected_processes (safety st)) \<and> sublist (lower p) (lower name))"


section \<open>Example inputs\<close>

text \<open>The default settings with \<^verbatim>\<open>kill\<close> taken out of \<^verbatim>\<open>dangerous_commands\<close>.\<close>

definition settings_without_kill :: settings where
  "settings_without_kill =
     default_settings\<lparr>safety := default_safety\<lparr>dangerous_commands :=
       [''rm'', ''killall'', ''pkill'', ''systemctl stop'', ''systemctl disable'',
        ''systemctl mask'', ''reboot'', ''shutdown'', ''poweroff'']\<rparr>\<rparr>"

text \<open>A process table with no process, and one where process 812 is \<^verbatim>\<open>sshd\<close>.\<close>

definition empty_os :: os_state where
  "empty_os = \<lparr>process_table = (\<lambda>pid. None), process_iter = []\<rparr>"

definition sshd_process :: process where
  "sshd_process =
     \<lparr>proc_name = Inr ''sshd'', proc_cmdline = Inr [''/usr/sbin/sshd'', ''-D''],
      proc_cpu_percent = Inr 0, proc_memory_percent = Inr 0\<rparr>"

definition example_os :: os_state where
  "example_os =
     \<lparr>process_table = (\<lambda>pid. if pid = 812 then Some sshd_process else None),
      process_iter = [(812, ''sshd'', Some [''/usr/sbin/sshd'', ''-D''])]\<rparr>"

text \<open>The world before a call: no process started, an empty history file.\<close>

definition empty_world :: world where
  "empty_world = \<lparr>spawned = [], history = []\<rparr>"

text \<open>Runs of the shell: a command that outlives its timeout, is killed and reaped with
  return code \<^verbatim>\<open>-9\<close>; one that is killed but not reaped within the second wait; one that
  completes with 600 characters on standard output and 400 on standard error.\<close>

definition killed_run :: shell_run where
  "killed_run =
     \<lparr>spawn = Spawned, communicate = WaitTimeout, kill_group = Killed,
      communicate_after_kill = Communicated [] [], exit_status = Some (- 9)\<rparr>"

definition unreaped_run :: shell_run where
  "unreaped_run =
     \<lparr>spawn = Spawned, communicate = WaitTimeout, kill_group = Killed,
      communicate_after_kill = WaitTimeout, exit_status = None\<rparr>"

definition noisy_run :: shell_run where
  "noisy_run =
     \<lparr>spawn = Spawned,
      communicate = Communicated (replicate 600 CHR ''o'') (replicate 400 CHR ''e''),
      kill_group = Killed, communicate_after_kill = WaitTimeout, exit_status = Some 0\<rparr>"

definition example_env :: "shell_run \<Rightarrow> exec_env" where
  "example_env run =
     \<lparr>getcwd = Inr ''/home/user'', shell = (\<lambda>command cwd timeout. run),
      loop_time_start = 10, loop_time_end = 11,
      now_isoformat = ''2024-05-01T12:00:00'', history_writable = True\<rparr>"

definition removed_cwd_env :: exec_env where
  "removed_cwd_env =
     (example_env noisy_run)
       \<lparr>getcwd := Inl (Exception ''[Errno 2] No such file or directory'')\<rparr>"

text \<open>A run that prints one character on standard output and two on standard error, and
  settings with a negative limit.\<close>

definition short_run :: shell_run where
  "short_run =
     \<lparr>spawn = Spawned, communicate = Communicated ''a'' ''bc'',
      kill_group = Killed, communicate_after_kill = WaitTimeout, exit_status = Some 0\<rparr>"

definition negative_limit_settings :: settings where
  "negative_limit_settings =
     default_settings\<lparr>execution := default_execution\<lparr>max_output_size := - 7\<rparr>\<rparr>"

definition small_limit_settings :: settings where
  "small_limit_settings =
     default_settings\<lparr>execution := default_execution\<lparr>max_output_size := 100\<rparr>\<rparr>"

section \<open>Theorems\<close>

subsection \<open>Word-boundary search\<close>

lemma at_boundary_append: "at_boundary (l @ r) (length l) = boundary_between l r"
proof -
  have a: "(0 < length l \<and> word_at (l @ r) (length l - 1)) = (l \<noteq> [] \<and> is_word_char (last l))"
    by (cases l rule: rev_cases) (simp_all add: word_at_def nth_append)
  have b: "word_at (l @ r) (length l) = (r \<noteq> [] \<and> is_word_char (hd r))"
    by (cases r) (simp_all add: word_at_def nth_append)
  show ?thesis by (simp only: at_boundary_def boundary_between_def a b)
qed

lemma re_search_word_index: "re_search_word d s = (\<exists>i\<le>length s. match_at d s i)"
  unfolding re_search_word_def list_ex_iff set_upt by (auto simp: less_Suc_eq_le)

lemma re_search_word_iff: "re_search_word d s = occurs_as_word d s"
proof
  assume "re_search_word d s"
  then obtain i where i: "i \<le> length s" and m: "match_at d s i"
    unfolding re_search_word_index by blast
  define pre where "pre = take i s"
  define post where "post = drop (i + length d) s"
  have tk: "take (length d) (drop i s) = d" using m by (simp add: match_at_def)
  have s1: "drop i s = d @ post"
    using append_take_drop_id[of "length d" "drop i s"] tk by (simp add: post_def add.commute)
  have s: "s = pre @ d @ post"
    using append_take_drop_id[of i s] s1 by (simp add: pre_def)
  have lp: "length pre = i" using i by (simp add: pre_def)
  have b1: "boundary_between pre (d @ post)"
    using m at_boundary_append[of pre "d @ post"] s lp by (simp add: match_at_def)
  have b2: "boundary_between (pre @ d) post"
    using m at_boundary_append[of "pre @ d" post] s lp by (simp add: match_at_def)
  show "occurs_as_word d s" unfolding occurs_as_word_def using s b1 b2 by blast
next
  assume "occurs_as_word d s"
  then obtain pre post where s: "s = pre @ d @ post"
    and b1: "boundary_between pre (d @ post)" and b2: "boundary_between (pre @ d) post"
    unfolding occurs_as_word_def by blast
  have "match_at d s (length pre)"
    using b1 b2 at_boundary_append[of pre "d @ post"] at_boundary_append[of "pre @ d" post]
    by (simp add: match_at_def s)
  moreover have "length pre \<le> length s" by (simp add: s)
  ultimately show "re_search_word d s"
    unfolding re_search_word_index by blast
qed

text \<open>Non-word characters at either end of the string do not change where a literal
  occurs between word boundaries; so \<^const>\<open>strip\<close> does not either.\<close>

lemma boundary_between_Cons:
  "\<not> is_word_char c \<Longrightarrow> boundary_between (c # l) r = boundary_between l r"
  by (cases l) (simp_all add: boundary_between_def)

lemma boundary_between_snoc:
  "\<not> is_word_char c \<Longrightarrow> boundary_between l (r @ [c]) = boundary_between l r"
  by (cases r) (simp_all add: boundary_between_def)

lemma occurs_as_word_Cons:
  assumes "\<not> is_word_char c"
  shows "occurs_as_word d (c # s) = occurs_as_word d s"
proof
  assume "occurs_as_word d (c # s)"
  then obtain pre post where s: "c # s = pre @ d @ post"
    and b1: "boundary_between pre (d @ post)" and b2: "boundary_between (pre @ d) post"
    unfolding occurs_as_word_def by blast
  have "pre \<noteq> []"
  proof
    assume "pre = []"
    with s b1 assms show False by (simp add: boundary_between_def) (metis list.sel(1))
  qed
  then obtain pre' where p: "pre = c # pre'" using s by (cases pre) auto
  have "s = pre' @ d @ post" using s p by simp
  moreover have "boundary_between pre' (d @ post)"
    using b1 p assms by (simp add: boundary_between_Cons)
  moreover have "boundary_between (pre' @ d) post"
    using b2 p assms by (simp add: boundary_between_Cons)
  ultimately show "occurs_as_word d s" unfolding occurs_as_word_def by blast
next
  assume "occurs_as_word d s"
  then obtain pre post where s: "s = pre @ d @ post"
    and b1: "boundary_between pre (d @ post)" and b2: "boundary_between (pre @ d) post"
    unfolding occurs_as_word_def by blast
  have "c # s = (c # pre) @ d @ post" using s by simp
  moreover have "boundary_between (c # pre) (d @ post)"
    using b1 assms by (simp add: boundary_between_Cons)
  moreover have "boundary_between ((c # pre) @ d) post"
    using b2 assms by (simp add: boundary_between_Cons)
  ultimately show "occurs_as_word d (c # s)" unfolding occurs_as_word_def by blast
qed

lemma occurs_as_word_snoc:
  assumes "\<not> is_word_char c"
  shows "occurs_as_word d (s @ [c]) = occurs_as_word d s"
proof
  assume "occurs_as_word d (s @ [c])"
  then obtain pre post where s: "s @ [c] = pre @ d @ post"
    and b1: "boundary_between pre (d @ post)" and b2: "boundary_between (pre @ d) post"
    unfolding occurs_as_word_def by blast
  have "post \<noteq> []"
  proof
    assume "post = []"
    then have "pre @ d = s @ [c]" using s by simp
    then have "last (pre @ d) = c" "pre @ d \<noteq> []"
      by (metis last_snoc, metis snoc_eq_iff_butlast)
    with b2 \<open>post = []\<close> assms show False by (simp add: boundary_between_def)
  qed
  then obtain post' x where p: "post = post' @ [x]" by (cases post rule: rev_cases) auto
  have "s @ [c] = (pre @ d @ post') @ [x]" using s p by simp
  then have x: "x = c" and s': "s = pre @ d @ post'" by auto
  have "boundary_between pre (d @ post')"
    using b1 p x assms boundary_between_snoc[of c pre "d @ post'"] by simp
  moreover have "boundary_between (pre @ d) post'"
    using b2 p x assms by (simp add: boundary_between_snoc)
  ultimately show "occurs_as_word d s" using s' unfolding occurs_as_word_def by blast
next
  assume "occurs_as_word d s"
  then obtain pre post where s: "s = pre @ d @ post"
    and b1: "boundary_between pre (d @ post)" and b2: "boundary_between (pre @ d) post"
    unfolding occurs_as_word_def by blast
  have "s @ [c] = pre @ d @ (post @ [c])" using s by simp
  moreover have "boundary_between pre (d @ (post @ [c]))"
    using b1 assms boundary_between_snoc[of c pre "d @ post"] by simp
  moreover have "boundary_between (pre @ d) (post @ [c])"
    using b2 assms by (simp add: boundary_between_snoc)
  ultimately show "occurs_as_word d (s @ [c])" unfolding occurs_as_word_def by blast
qed

lemma occurs_as_word_prepend:
  "\<forall>c\<in>set ws. \<not> is_word_char c \<Longrightarrow> occurs_as_word d (ws @ s) = occurs_as_word d s"
  by (induction ws) (simp_all add: occurs_as_word_Cons)

lemma occurs_as_word_append:
  "\<forall>c\<in>set ws. \<not> is_word_char c \<Longrightarrow> occurs_as_word d (s @ ws) = occurs_as_word d s"
proof (induction ws rule: rev_induct)
  case Nil
  then show ?case by simp
next
  case (snoc x xs)
  have "occurs_as_word d (s @ xs @ [x]) = occurs_as_word d ((s @ xs) @ [x])" by simp
  also have "\<dots> = occurs_as_word d (s @ xs)"
    using snoc.prems by (intro occurs_as_word_snoc) simp
  finally show ?case using snoc by simp
qed

lemma isspace_not_word: "isspace c \<Longrightarrow> \<not> is_word_char c"
  by (auto simp: isspace_def is_word_char_def Let_def)

lemma strip_decomp:
  "\<exists>ws1 ws2. s = ws1 @ strip s @ ws2 \<and> (\<forall>c\<in>set ws1. isspace c) \<and> (\<forall>c\<in>set ws2. isspace c)"
proof -
  define u where "u = dropWhile isspace s"
  define ws1 where "ws1 = takeWhile isspace s"
  define ws2 where "ws2 = rev (takeWhile isspace (rev u))"
  have "rev (rev u) = rev (takeWhile isspace (rev u) @ dropWhile isspace (rev u))"
    by (simp only: takeWhile_dropWhile_id)
  then have "u = rev (dropWhile isspace (rev u)) @ rev (takeWhile isspace (rev u))"
    by (simp only: rev_rev_ident rev_append)
  then have u: "u = strip s @ ws2" by (simp only: strip_def ws2_def u_def)
  have "s = ws1 @ u" by (simp add: ws1_def u_def)
  then have "s = ws1 @ strip s @ ws2" using u by simp
  moreover have "\<forall>c\<in>set ws1. isspace c" by (auto simp: ws1_def dest: set_takeWhileD)
  moreover have "\<forall>c\<in>set ws2. isspace c" by (auto simp: ws2_def dest: set_takeWhileD)
  ultimately show ?thesis by blast
qed

lemma occurs_as_word_strip: "occurs_as_word d (strip s) = occurs_as_word d s"
proof -
  obtain ws1 ws2 where s: "s = ws1 @ strip s @ ws2"
    and w1: "\<forall>c\<in>set ws1. isspace c" and w2: "\<forall>c\<in>set ws2. isspace c"
    using strip_decomp by blast
  have "occurs_as_word d s = occurs_as_word d (ws1 @ (strip s @ ws2))" using s by simp
  also have "\<dots> = occurs_as_word d (strip s @ ws2)"
    using w1 by (intro occurs_as_word_prepend) (auto dest: isspace_not_word)
  also have "\<dots> = occurs_as_word d (strip s)"
    using w2 by (intro occurs_as_word_append) (auto dest: isspace_not_word)
  finally show ?thesis by simp
qed

lemma dangerous_loop_iff: "dangerous_loop ds s = (\<exists>d\<in>set ds. re_search_word d s)"
  by (induction ds) auto

subsection \<open>Dangerous commands\<close>

text \<open>
  C7. \<^const>\<open>is_dangerous_command\<close> is a function of the settings and the command alone. It
  returns true exactly when some entry of \<^verbatim>\<open>dangerous_commands\<close> occurs in the lowercased
  command between word boundaries. With the default settings, \<^verbatim>\<open>rm -rf /\<close> and
  \<^verbatim>\<open>systemctl stop nginx\<close> are dangerous, \<^verbatim>\<open>ls -la\<close> and \<^verbatim>\<open>systemctl status nginx\<close> are not.
\<close>

theorem is_dangerous_command_iff:
  "(is_dangerous_command st command \<longleftrightarrow>
      (\<exists>d\<in>set (dangerous_commands (safety st)). occurs_as_word d (lower command)))
   \<and> is_dangerous_command default_settings ''rm -rf /''
   \<and> \<not> is_dangerous_command default_settings ''ls -la''
   \<and> \<not> is_dangerous_command default_settings ''systemctl status nginx''
   \<and> is_dangerous_command default_settings ''systemctl stop nginx''"
proof -
  have "is_dangerous_command st command \<longleftrightarrow>
      (\<exists>d\<in>set (dangerous_commands (safety st)). occurs_as_word d (lower command))"
    by (simp add: is_dangerous_command_def dangerous_loop_iff re_search_word_iff
        occurs_as_word_strip)
  moreover have "is_dangerous_command default_settings ''rm -rf /''" by code_simp
  moreover have "\<not> is_dangerous_command default_settings ''ls -la''" by code_simp
  moreover have "\<not> is_dangerous_command default_settings ''systemctl status nginx''"
    by code_simp
  moreover have "is_dangerous_command default_settings ''systemctl stop nginx''" by code_simp
  ultimately show ?thesis by blast
qed

theorem is_dangerous_command_iff_witness:
  "(\<exists>d\<in>set (dangerous_commands (safety default_settings)). occurs_as_word d (lower ''rm -rf /''))
   \<and> \<not> (\<exists>d\<in>set (dangerous_commands (safety default_settings)). occurs_as_word d (lower ''ls -la''))"
  using is_dangerous_command_iff[of default_settings "''rm -rf /''"]
    is_dangerous_command_iff[of default_settings "''ls -la''"]
  by blast

subsection \<open>Protected processes\<close>

lemma protected_loop_find:
  "protected_loop ps nm =
     (case find (\<lambda>p. sublist (lower p) nm) ps of
        None \<Rightarrow> (False, None)
      | Some p \<Rightarrow> (True, Some (protected_reason p)))"
  by (induction ps) auto

lemma check_process_name_match:
  assumes "\<exists>p. contains_protected st p name"
  shows "\<exists>p. contains_protected st p name \<and> check_process_name st name = (True, Some (protected_reason p))"
proof -
  from assms obtain q where q: "q \<in> set (protected_processes (safety st))" "sublist (lower q) (lower name)"
    unfolding contains_protected_def by blast
  then have "find (\<lambda>p. sublist (lower p) (lower name)) (protected_processes (safety st)) \<noteq> None"
    by (auto simp: find_None_iff)
  then obtain p where p: "find (\<lambda>p. sublist (lower p) (lower name)) (protected_processes (safety st)) = Some p"
    by blast
  then have "p \<in> set (protected_processes (safety st))" "sublist (lower p) (lower name)"
    by (auto simp: find_Some_iff)
  moreover have "check_process_name st name = (True, Some (protected_reason p))"
    by (simp add: check_process_name_def protected_loop_find p)
  ultimately show ?thesis unfolding contains_protected_def by blast
qed

lemma check_process_name_no_match:
  assumes "\<not> (\<exists>p. contains_protected st p name)"
  shows "check_process_name st name = (False, None)"
proof -
  have "find (\<lambda>p. sublist (lower p) (lower name)) (protected_processes (safety st)) = None"
    using assms by (auto simp: find_None_iff contains_protected_def)
  then show ?thesis by (simp add: check_process_name_def protected_loop_find)
qed

lemma check_process_name_cases:
  "((\<exists>p. contains_protected st p name) \<longrightarrow>
      (\<exists>p. contains_protected st p name \<and> check_process_name st name = (True, Some (protected_reason p))))
   \<and> (\<not> (\<exists>p. contains_protected st p name) \<longrightarrow> check_process_name st name = (False, None))"
  using check_process_name_match check_process_name_no_match by blast

text \<open>
  C4. \<^const>\<open>is_protected_process\<close>, with the process table as an input. An identifier that
  parses as an integer in \<^verbatim>\<open>protected_pids\<close> is protected and the reason starts with
  \<^verbatim>\<open>PID\<close> and the number. An integer outside the set whose process does not exist
  (\<^verbatim>\<open>NoSuchProcess\<close>) or cannot be read (\<^verbatim>\<open>AccessDenied\<close>) is not protected. Otherwise a
  name is looked up: the identifier itself when it is not an integer (or when
  \<^verbatim>\<open>psutil.Process\<close> rejects a negative number with \<^verbatim>\<open>ValueError\<close>), else the name of the
  process with that PID. If the name contains a protected name, letter case ignored, it
  is protected and the reason contains a protected name that matched; if it contains
  none, it is not protected.
\<close>

theorem is_protected_process_cases:
  "(py_int identifier = Some pid \<and> pid \<in> set (protected_pids (safety st)) \<longrightarrow>
      is_protected_process st os identifier = (True, Some (protected_pid_reason pid))
      \<and> prefix (''PID '' @ str_int pid) (protected_pid_reason pid))
   \<and> (py_int identifier = Some pid \<and> pid \<notin> set (protected_pids (safety st)) \<and>
       (psutil_Process os pid = Inl (PsutilError e) \<or>
        psutil_Process os pid = Inr proc \<and> proc_name proc = Inl e) \<longrightarrow>
      is_protected_process st os identifier = (False, None))
   \<and> ((py_int identifier = None \<and> name = identifier \<or>
        py_int identifier = Some pid \<and> pid \<notin> set (protected_pids (safety st)) \<and>
          psutil_Process os pid = Inl ValueError \<and> name = identifier \<or>
        py_int identifier = Some pid \<and> pid \<notin> set (protected_pids (safety st)) \<and>
          psutil_Process os pid = Inr proc \<and> proc_name proc = Inr name) \<longrightarrow>
       ((\<exists>p. contains_protected st p name) \<longrightarrow>
          (\<exists>p. contains_protected st p name \<and>
               is_protected_process st os identifier = (True, Some (protected_reason p)) \<and>
               sublist p (protected_reason p)))
       \<and> (\<not> (\<exists>p. contains_protected st p name) \<longrightarrow>
            is_protected_process st os identifier = (False, None)))"
proof -
  have c1: "py_int identifier = Some pid \<and> pid \<in> set (protected_pids (safety st)) \<longrightarrow>
      is_protected_process st os identifier = (True, Some (protected_pid_reason pid))
      \<and> prefix (''PID '' @ str_int pid) (protected_pid_reason pid)"
    by (simp add: is_protected_process_def protected_pid_reason_def)
  have c2: "py_int identifier = Some pid \<and> pid \<notin> set (protected_pids (safety st)) \<and>
       (psutil_Process os pid = Inl (PsutilError e) \<or>
        psutil_Process os pid = Inr proc \<and> proc_name proc = Inl e) \<longrightarrow>
      is_protected_process st os identifier = (False, None)"
    by (auto simp: is_protected_process_def)
  have eq: "(py_int identifier = None \<and> name = identifier \<or>
        py_int identifier = Some pid \<and> pid \<notin> set (protected_pids (safety st)) \<and>
          psutil_Process os pid = Inl ValueError \<and> name = identifier \<or>
        py_int identifier = Some pid \<and> pid \<notin> set (protected_pids (safety st)) \<and>
          psutil_Process os pid = Inr proc \<and> proc_name proc = Inr name) \<longrightarrow>
        is_protected_process st os identifier = check_process_name st name"
    by (auto simp: is_protected_process_def)
  have cite: "\<And>p. sublist p (protected_reason p)"
    unfolding protected_reason_def by (metis sublist_appendI)
  have c3: "(py_int identifier = None \<and> name = identifier \<or>
        py_int identifier = Some pid \<and> pid \<notin> set (protected_pids (safety st)) \<and>
          psutil_Process os pid = Inl ValueError \<and> name = identifier \<or>
        py_int identifier = Some pid \<and> pid \<notin> set (protected_pids (safety st)) \<and>
          psutil_Process os pid = Inr proc \<and> proc_name proc = Inr name) \<longrightarrow>
       ((\<exists>p. contains_protected st p name) \<longrightarrow>
          (\<exists>p. contains_protected st p name \<and>
               is_protected_process st os identifier = (True, Some (protected_reason p)) \<and>
               sublist p (protected_reason p)))
       \<and> (\<not> (\<exists>p. contains_protected st p name) \<longrightarrow>
            is_protected_process st os identifier = (False, None))"
  proof (intro impI conjI)
    assume h: "py_int identifier = None \<and> name = identifier \<or>
        py_int identifier = Some pid \<and> pid \<notin> set (protected_pids (safety st)) \<and>
          psutil_Process os pid = Inl ValueError \<and> name = identifier \<or>
        py_int identifier = Some pid \<and> pid \<notin> set (protected_pids (safety st)) \<and>
          psutil_Process os pid = Inr proc \<and> proc_name proc = Inr name"
    assume "\<exists>p. contains_protected st p name"
    then obtain p where "contains_protected st p name"
      and "check_process_name st name = (True, Some (protected_reason p))"
      using check_process_name_match by blast
    then show "\<exists>p. contains_protected st p name \<and>
               is_protected_process st os identifier = (True, Some (protected_reason p)) \<and>
               sublist p (protected_reason p)"
      using eq h cite by metis
  next
    assume h: "py_int identifier = None \<and> name = identifier \<or>
        py_int identifier = Some pid \<and> pid \<notin> set (protected_pids (safety st)) \<and>
          psutil_Process os pid = Inl ValueError \<and> name = identifier \<or>
        py_int identifier = Some pid \<and> pid \<notin> set (protected_pids (safety st)) \<and>
          psutil_Process os pid = Inr proc \<and> proc_name proc = Inr name"
    assume "\<not> (\<exists>p. contains_protected st p name)"
    then have "check_process_name st name = (False, None)"
      by (rule check_process_name_no_match)
    then show "is_protected_process st os identifier = (False, None)"
      using eq h by metis
  qed
  show ?thesis
    by (intro conjI) (rule c1, rule c2, rule c3)
qed




lemma contains_protected_ex:
  "(\<exists>p. contains_protected st p name) =
     list_ex (\<lambda>p. sublist (lower p) (lower name)) (protected_processes (safety st))"
  by (auto simp: contains_protected_def list_ex_iff)

theorem is_protected_process_cases_witness:
  "is_protected_process default_settings empty_os ''1'' =
     (True, Some ''PID 1 is a protected system process'')
   \<and> is_protected_process default_settings empty_os ''99999999'' = (False, None)
   \<and> (\<exists>p. contains_protected default_settings p ''systemd'' \<and>
          is_protected_process default_settings empty_os ''systemd'' =
            (True, Some (protected_reason p)))
   \<and> (\<exists>p. contains_protected default_settings p ''sshd'' \<and>
          is_protected_process default_settings example_os ''812'' =
            (True, Some (protected_reason p)))
   \<and> is_protected_process default_settings empty_os ''nginx'' = (False, None)"
proof -
  have i1: "py_int ''1'' = Some 1" by code_simp
  have m1: "(1::int) \<in> set (protected_pids (safety default_settings))" by code_simp
  have r1: "protected_pid_reason 1 = ''PID 1 is a protected system process''" by code_simp
  have a: "is_protected_process default_settings empty_os ''1'' =
     (True, Some ''PID 1 is a protected system process'')"
    using is_protected_process_cases[of "''1''" 1 default_settings empty_os] i1 m1 r1 by simp
  have i2: "py_int ''99999999'' = Some 99999999"
    by (simp add: py_int_def parse_unsigned_def isdigit_def digit_val_def ord_def int_space_def)
  have m2: "(99999999::int) \<notin> set (protected_pids (safety default_settings))"
    by (simp add: default_settings_def default_safety_def)
  have p2: "psutil_Process empty_os 99999999 = Inl (PsutilError NoSuchProcess)"
    by (simp add: psutil_Process_def empty_os_def)
  have b: "is_protected_process default_settings empty_os ''99999999'' = (False, None)"
    using is_protected_process_cases[of "''99999999''" 99999999 default_settings empty_os NoSuchProcess]
      i2 m2 p2 by blast
  have i3: "py_int ''systemd'' = None" by code_simp
  have e3: "\<exists>p. contains_protected default_settings p ''systemd''"
    unfolding contains_protected_ex by code_simp
  have c: "\<exists>p. contains_protected default_settings p ''systemd'' \<and>
          is_protected_process default_settings empty_os ''systemd'' =
            (True, Some (protected_reason p))"
    using is_protected_process_cases[of "''systemd''" _ default_settings empty_os _ _ "''systemd''"]
      i3 e3 by blast
  have i4: "py_int ''812'' = Some 812" by code_simp
  have m4: "(812::int) \<notin> set (protected_pids (safety default_settings))" by code_simp
  have p4: "psutil_Process example_os 812 = Inr sshd_process"
    by (simp add: psutil_Process_def example_os_def)
  have n4: "proc_name sshd_process = Inr ''sshd''" by (simp add: sshd_process_def)
  have e4: "\<exists>p. contains_protected default_settings p ''sshd''"
    unfolding contains_protected_ex by code_simp
  have d: "\<exists>p. contains_protected default_settings p ''sshd'' \<and>
          is_protected_process default_settings example_os ''812'' =
            (True, Some (protected_reason p))"
    using is_protected_process_cases[of "''812''" 812 default_settings example_os _ sshd_process "''sshd''"]
      i4 m4 p4 n4 e4 by blast
  have i5: "py_int ''nginx'' = None" by code_simp
  have e5: "\<not> (\<exists>p. contains_protected default_settings p ''nginx'')"
    unfolding contains_protected_ex by code_simp
  have e: "is_protected_process default_settings empty_os ''nginx'' = (False, None)"
    using is_protected_process_cases[of "''nginx''" _ default_settings empty_os _ _ "''nginx''"]
      i5 e5 by blast
  show ?thesis using a b c d e by blast
qed

subsection \<open>Kill and service commands\<close>

lemma is_protected_process_reason:
  "fst (is_protected_process st os identifier) \<Longrightarrow> snd (is_protected_process st os identifier) \<noteq> None"
  by (auto simp: is_protected_process_def check_process_name_def protected_loop_find
      split: option.splits sum.splits lookup_error.splits if_splits)

text \<open>
  C5. A command whose first token is \<^verbatim>\<open>kill\<close>, \<^verbatim>\<open>killall\<close> or \<^verbatim>\<open>pkill\<close>: with fewer than
  two tokens \<^const>\<open>validate_kill_command\<close> answers unsafe with the error that no target is
  specified. Otherwise the last token is the target: the answer is unsafe, with the
  protection reason as the error, exactly when the target is protected, and safe with
  whatever process information could be gathered (possibly none) when it is not.
\<close>

theorem validate_kill_family:
  assumes "tokens = split command"
    and "tokens \<noteq> []"
    and "hd tokens \<in> {''kill'', ''killall'', ''pkill''}"
  shows "(length tokens < 2 \<longrightarrow>
           validate_kill_command st os command =
             (False, Some (''No target specified for '' @ hd tokens), None))
       \<and> (2 \<le> length tokens \<and> fst (is_protected_process st os (last tokens)) \<longrightarrow>
           validate_kill_command st os command =
             (False, snd (is_protected_process st os (last tokens)), None)
           \<and> snd (is_protected_process st os (last tokens)) \<noteq> None)
       \<and> (2 \<le> length tokens \<and> \<not> fst (is_protected_process st os (last tokens)) \<longrightarrow>
           validate_kill_command st os command =
             (True, None, get_process_info os (last tokens)))"
proof -
  have m: "hd (split command) \<in> set [''kill'', ''killall'', ''pkill'']"
    using assms by simp
  have n: "split command \<noteq> []" using assms by simp
  show ?thesis
    using is_protected_process_reason[of st os "last tokens"]
    unfolding validate_kill_command_def Let_def assms(1)
    by (simp only: m n if_True if_False split: prod.splits) (auto simp: not_less)
qed

theorem validate_kill_family_witness:
  "validate_kill_command default_settings example_os ''kill'' =
     (False, Some ''No target specified for kill'', None)
   \<and> validate_kill_command default_settings example_os ''kill -9 1'' =
     (False, Some ''PID 1 is a protected system process'', None)
   \<and> validate_kill_command default_settings example_os ''pkill nginx'' = (True, None, None)
   \<and> validate_kill_command default_settings example_os ''killall -9 SSH'' =
     (True, None, Some (MatchingProcesses [(812, ''sshd'', ''/usr/sbin/sshd -D'')] 1))"
proof -
  have t1: "split ''kill'' = [''kill'']" by code_simp
  have a: "validate_kill_command default_settings example_os ''kill'' =
     (False, Some ''No target specified for kill'', None)"
    using validate_kill_family[of "[''kill'']" "''kill''" default_settings example_os] t1 by simp
  have t2: "split ''kill -9 1'' = [''kill'', ''-9'', ''1'']" by code_simp
  have p2: "is_protected_process default_settings example_os ''1'' =
      (True, Some ''PID 1 is a protected system process'')" by code_simp
  have b: "validate_kill_command default_settings example_os ''kill -9 1'' =
     (False, Some ''PID 1 is a protected system process'', None)"
    using validate_kill_family[of "[''kill'', ''-9'', ''1'']" "''kill -9 1''" default_settings example_os]
      t2 p2 by simp
  have t3: "split ''pkill nginx'' = [''pkill'', ''nginx'']" by code_simp
  have p3: "is_protected_process default_settings example_os ''nginx'' = (False, None)" by code_simp
  have g3: "get_process_info example_os ''nginx'' = None" by code_simp
  have c: "validate_kill_command default_settings example_os ''pkill nginx'' = (True, None, None)"
    using validate_kill_family[of "[''pkill'', ''nginx'']" "''pkill nginx''" default_settings example_os]
      t3 p3 g3 by simp
  have t4: "split ''killall -9 SSH'' = [''killall'', ''-9'', ''SSH'']" by code_simp
  have p4: "is_protected_process default_settings example_os ''SSH'' = (False, None)" by code_simp
  have g4: "get_process_info example_os ''SSH'' =
      Some (MatchingProcesses [(812, ''sshd'', ''/usr/sbin/sshd -D'')] 1)" by code_simp
  have d: "validate_kill_command default_settings example_os ''killall -9 SSH'' =
     (True, None, Some (MatchingProcesses [(812, ''sshd'', ''/usr/sbin/sshd -D'')] 1))"
    using validate_kill_family[of "[''killall'', ''-9'', ''SSH'']" "''killall -9 SSH''" default_settings example_os]
      t4 p4 g4 by simp
  show ?thesis using a b c d by blast
qed

lemma service_no_inner_dot: "0 < k \<Longrightarrow> k < 8 \<Longrightarrow> ''.service'' ! k \<noteq> CHR ''.''"
proof -
  assume "0 < k" "k < 8"
  then have "k \<in> set [1..<8]" by simp
  moreover have "\<forall>k\<in>set [1..<8]. ''.service'' ! k \<noteq> CHR ''.''" by code_simp
  ultimately show ?thesis by blast
qed

lemma prefix_overlap:
  assumes "prefix old (xs @ old)" and "xs \<noteq> []" and "\<not> prefix old xs"
  shows "0 < length xs \<and> length xs < length old \<and> old ! (length xs) = old ! 0"
proof -
  from assms(1,3) obtain us where us: "old = xs @ us" "prefix us old"
    by (auto simp: prefix_append)
  have ne: "us \<noteq> []" using us(1) assms(3) by auto
  then obtain u us' where u: "us = u # us'" by (cases us) auto
  have "old ! 0 = u" using us(2) u by (auto simp: prefix_def)
  moreover have "old ! (length xs) = u" using us(1) u by (simp add: nth_append)
  moreover have "length xs < length old" using us(1) ne by simp
  ultimately show ?thesis using assms(2) by simp
qed

lemma prefix_service_overlap:
  assumes "prefix ''.service'' (xs @ ''.service'')" and "xs \<noteq> []"
  shows "prefix ''.service'' xs"
proof (rule ccontr)
  assume n: "\<not> prefix ''.service'' xs"
  have "0 < length xs \<and> length xs < length ''.service'' \<and>
          ''.service'' ! (length xs) = ''.service'' ! 0"
    using prefix_overlap[OF assms n] .
  then have "0 < length xs" "length xs < 8" "''.service'' ! (length xs) = CHR ''.''"
    by simp_all
  then show False using service_no_inner_dot[of "length xs"] by blast
qed

lemma replace_nonempty_skip:
  "\<not> prefix old (c # s) \<Longrightarrow> replace_nonempty old new (c # s) = c # replace_nonempty old new s"
  by simp

lemma replace_service_suffix:
  "\<not> sublist ''.service'' base \<Longrightarrow> replace (base @ ''.service'') ''.service'' [] = base"
proof (induction base)
  case Nil
  show ?case by code_simp
next
  case (Cons c cs)
  have n1: "\<not> prefix ''.service'' (c # cs)"
    using Cons.prems by (meson prefix_imp_sublist)
  have n2: "\<not> prefix ''.service'' (c # (cs @ ''.service''))"
    using prefix_service_overlap[of "c # cs"] n1 by auto
  have n3: "\<not> sublist ''.service'' cs"
    using Cons.prems by (meson sublist_Cons_right)
  have ne: "''.service'' \<noteq> []" by simp
  have "replace ((c # cs) @ ''.service'') ''.service'' [] =
          replace_nonempty ''.service'' [] (c # (cs @ ''.service''))"
    unfolding replace_def using ne by (simp only: if_False append_Cons)
  also have "\<dots> = c # replace_nonempty ''.service'' [] (cs @ ''.service'')"
    using n2 by (rule replace_nonempty_skip)
  also have "replace_nonempty ''.service'' [] (cs @ ''.service'') =
          replace (cs @ ''.service'') ''.service'' []"
    unfolding replace_def using ne by (simp only: if_False)
  also have "\<dots> = cs" using Cons.IH[OF n3] .
  finally show ?case .
qed

text \<open>
  The commands on which the code departs from the statement that every command other
  than a kill command or a matching \<^verbatim>\<open>systemctl\<close> action is safe, and that only the
  unit-type suffix is taken off the service name: \<^verbatim>\<open>systemctl daemon-reload\<close> and the
  empty command are unsafe, and \<^verbatim>\<open>systemctl stop sys.servicetemd\<close> is blocked as
  \<^verbatim>\<open>systemd\<close> although the name \<^verbatim>\<open>sys.servicetemd\<close> is not protected.
\<close>

theorem systemctl_counterexample:
  "validate_kill_command default_settings empty_os ''systemctl daemon-reload'' =
     (False, Some ''Incomplete systemctl command'', None)
   \<and> validate_kill_command default_settings empty_os [] = (False, Some ''Empty command'', None)
   \<and> is_protected_process default_settings empty_os ''sys.servicetemd'' = (False, None)
   \<and> validate_kill_command default_settings empty_os ''systemctl stop sys.servicetemd'' =
     (False, Some (protected_reason ''systemd''), None)"
  by code_simp


text \<open>
  C6, as the code has it. For a command that does not start with \<^verbatim>\<open>kill\<close>, \<^verbatim>\<open>killall\<close>
  or \<^verbatim>\<open>pkill\<close>: the empty command is unsafe; a command whose first token contains
  \<^verbatim>\<open>systemctl\<close> is unsafe with fewer than three tokens; with three or more tokens and the
  second one \<^verbatim>\<open>stop\<close>, \<^verbatim>\<open>disable\<close> or \<^verbatim>\<open>mask\<close>, every occurrence of \<^verbatim>\<open>.service\<close> is
  removed from the third token and the result is looked up: unsafe with the reason when
  it is protected, safe with the service and the action otherwise; with another second
  token it is safe; every command whose first token does not contain \<^verbatim>\<open>systemctl\<close> is
  safe. A name that ends in \<^verbatim>\<open>.service\<close> and contains it nowhere else loses exactly
  that suffix.
\<close>

theorem validate_systemctl:
  assumes "tokens = split command"
    and "tokens = [] \<or> hd tokens \<notin> {''kill'', ''killall'', ''pkill''}"
  shows "(tokens = [] \<longrightarrow>
           validate_kill_command st os command = (False, Some ''Empty command'', None))
       \<and> (tokens \<noteq> [] \<and> sublist ''systemctl'' (hd tokens) \<and> length tokens < 3 \<longrightarrow>
           validate_kill_command st os command =
             (False, Some ''Incomplete systemctl command'', None))
       \<and> (tokens \<noteq> [] \<and> sublist ''systemctl'' (hd tokens) \<and> 3 \<le> length tokens \<and>
          tokens ! 1 \<in> {''stop'', ''disable'', ''mask''} \<and>
          fst (is_protected_process st os (replace (tokens ! 2) ''.service'' [])) \<longrightarrow>
           validate_kill_command st os command =
             (False, snd (is_protected_process st os (replace (tokens ! 2) ''.service'' [])), None)
           \<and> snd (is_protected_process st os (replace (tokens ! 2) ''.service'' [])) \<noteq> None)
       \<and> (tokens \<noteq> [] \<and> sublist ''systemctl'' (hd tokens) \<and> 3 \<le> length tokens \<and>
          tokens ! 1 \<in> {''stop'', ''disable'', ''mask''} \<and>
          \<not> fst (is_protected_process st os (replace (tokens ! 2) ''.service'' [])) \<longrightarrow>
           validate_kill_command st os command =
             (True, None, Some (ServiceAction (tokens ! 2) (tokens ! 1))))
       \<and> (tokens \<noteq> [] \<and> sublist ''systemctl'' (hd tokens) \<and> 3 \<le> length tokens \<and>
          tokens ! 1 \<notin> {''stop'', ''disable'', ''mask''} \<longrightarrow>
           validate_kill_command st os command = (True, None, None))
       \<and> (tokens \<noteq> [] \<and> \<not> sublist ''systemctl'' (hd tokens) \<longrightarrow>
           validate_kill_command st os command = (True, None, None))
       \<and> (\<not> sublist ''.service'' base \<longrightarrow>
           replace (base @ ''.service'') ''.service'' [] = base)"
proof -
  have k: "split command \<noteq> [] \<longrightarrow> hd (split command) \<notin> set [''kill'', ''killall'', ''pkill'']"
    using assms by auto
  show ?thesis
    using is_protected_process_reason[of st os "replace (tokens ! 2) ''.service'' []"] k
      replace_service_suffix[of base]
    unfolding validate_kill_command_def Let_def assms(1)
    by (auto simp: not_less split: prod.splits)
qed

theorem validate_systemctl_witness:
  "validate_kill_command default_settings example_os ''systemctl stop sshd.service'' =
     (False, Some (protected_reason ''sshd''), None)
   \<and> validate_kill_command default_settings example_os ''systemctl disable nginx.service'' =
     (True, None, Some (ServiceAction ''nginx.service'' ''disable''))
   \<and> validate_kill_command default_settings example_os ''systemctl status sshd'' = (True, None, None)
   \<and> validate_kill_command default_settings example_os ''ls -la'' = (True, None, None)
   \<and> validate_kill_command default_settings example_os ''systemctl daemon-reload'' =
     (False, Some ''Incomplete systemctl command'', None)
   \<and> validate_kill_command default_settings example_os [] = (False, Some ''Empty command'', None)"
proof -
  have t1: "split ''systemctl stop sshd.service'' = [''systemctl'', ''stop'', ''sshd.service'']"
    by code_simp
  have r1: "replace ''sshd.service'' ''.service'' [] = ''sshd''" by code_simp
  have p1: "is_protected_process default_settings example_os ''sshd'' =
      (True, Some (protected_reason ''sshd''))" by code_simp
  have s: "sublist ''systemctl'' ''systemctl''" by simp
  have a: "validate_kill_command default_settings example_os ''systemctl stop sshd.service'' =
     (False, Some (protected_reason ''sshd''), None)"
    using validate_systemctl[of "[''systemctl'', ''stop'', ''sshd.service'']"
        "''systemctl stop sshd.service''" default_settings example_os] t1 r1 p1 s by simp
  have t2: "split ''systemctl disable nginx.service'' = [''systemctl'', ''disable'', ''nginx.service'']"
    by code_simp
  have r2: "replace ''nginx.service'' ''.service'' [] = ''nginx''" by code_simp
  have p2: "is_protected_process default_settings example_os ''nginx'' = (False, None)" by code_simp
  have b: "validate_kill_command default_settings example_os ''systemctl disable nginx.service'' =
     (True, None, Some (ServiceAction ''nginx.service'' ''disable''))"
    using validate_systemctl[of "[''systemctl'', ''disable'', ''nginx.service'']"
        "''systemctl disable nginx.service''" default_settings example_os] t2 r2 p2 s by simp
  have t3: "split ''systemctl status sshd'' = [''systemctl'', ''status'', ''sshd'']" by code_simp
  have c: "validate_kill_command default_settings example_os ''systemctl status sshd'' = (True, None, None)"
    using validate_systemctl[of "[''systemctl'', ''status'', ''sshd'']"
        "''systemctl status sshd''" default_settings example_os] t3 s by simp
  have t4: "split ''ls -la'' = [''ls'', ''-la'']" by code_simp
  have s4: "\<not> sublist ''systemctl'' ''ls''" by code_simp
  have d: "validate_kill_command default_settings example_os ''ls -la'' = (True, None, None)"
    using validate_systemctl[of "[''ls'', ''-la'']" "''ls -la''" default_settings example_os] t4 s4
    by simp
  have t5: "split ''systemctl daemon-reload'' = [''systemctl'', ''daemon-reload'']" by code_simp
  have e: "validate_kill_command default_settings example_os ''systemctl daemon-reload'' =
     (False, Some ''Incomplete systemctl command'', None)"
    using validate_systemctl[of "[''systemctl'', ''daemon-reload'']" "''systemctl daemon-reload''"
        default_settings example_os] t5 s by simp
  have t6: "split [] = []" by code_simp
  have f: "validate_kill_command default_settings example_os [] = (False, Some ''Empty command'', None)"
    using validate_systemctl[of "[]" "[]" default_settings example_os] t6 by simp
  show ?thesis using a b c d e f by blast
qed

subsection \<open>Confirmation\<close>












text \<open>
  C9. With confirmation switched on, a command that is not dangerous needs no
  confirmation, whatever it targets: the protected PIDs and names are looked at only
  for dangerous commands. With \<^verbatim>\<open>kill\<close> taken out of \<^verbatim>\<open>dangerous_commands\<close>, \<^verbatim>\<open>kill 1\<close>
  needs no confirmation although PID 1 is protected and \<^const>\<open>validate_kill_command\<close> rejects
  the command.
\<close>

theorem confirmation_only_behind_dangerous_gate:
  "(require_confirmation (safety st) \<and> \<not> is_dangerous_command st command \<longrightarrow>
      requires_confirmation st os command = (False, None))
   \<and> require_confirmation (safety settings_without_kill)
   \<and> fst (is_protected_process settings_without_kill os ''1'')
   \<and> \<not> fst (validate_kill_command settings_without_kill os ''kill 1'')
   \<and> \<not> is_dangerous_command settings_without_kill ''kill 1''
   \<and> requires_confirmation settings_without_kill os ''kill 1'' = (False, None)"
proof -
  have a: "require_confirmation (safety st) \<and> \<not> is_dangerous_command st command \<longrightarrow>
      requires_confirmation st os command = (False, None)"
    by (simp add: requires_confirmation_def)
  have b: "require_confirmation (safety settings_without_kill)" by code_simp
  have c: "fst (is_protected_process settings_without_kill os ''1'')" by code_simp
  have d: "\<not> fst (validate_kill_command settings_without_kill os ''kill 1'')" by code_simp
  have e: "\<not> is_dangerous_command settings_without_kill ''kill 1''" by code_simp
  have f: "requires_confirmation settings_without_kill os ''kill 1'' = (False, None)"
    using e by (simp add: requires_confirmation_def)
  show ?thesis using a b c d e f by blast
qed

theorem confirmation_only_behind_dangerous_gate_witness:
  "requires_confirmation settings_without_kill example_os ''kill 1'' = (False, None)
   \<and> requires_confirmation default_settings example_os ''kill 1'' =
       (True, Some ''PID 1 is a protected system process'')"
proof -
  have "requires_confirmation default_settings example_os ''kill 1'' =
       (True, Some ''PID 1 is a protected system process'')" by code_simp
  then show ?thesis
    using confirmation_only_behind_dangerous_gate[of settings_without_kill "''kill 1''" example_os]
    by blast
qed

subsection \<open>The executor\<close>

lemma execute_completed:
  assumes "resolve_cwd st env cwd = Inr d"
    and "run = shell env command d (case timeout of None \<Rightarrow> command_timeout (execution st) | Some t \<Rightarrow> t)"
    and "spawn run = Spawned"
    and "wait_for_output run = Inr (out, err, t_flag)"
    and "enforce_limit (max_output_size (execution st)) out err = Inr (out', err', tr_flag)"
  shows "fst (execute st env command timeout cwd False w) =
           Inr \<lparr>command_text = command,
                returncode = result_returncode (exit_status run) t_flag,
                stdout = out', stderr = err',
                execution_time = loop_time_end env - loop_time_start env,
                timed_out = t_flag, truncated = tr_flag,
                result_working_directory = d\<rparr>"
  using assms
  by (simp add: execute_def run_command_def try_execute_def Let_def split: prod.splits)

lemma wait_for_output_timeout:
  assumes "communicate run = WaitTimeout"
    and "kill_group run = Killed \<or> kill_group run = ProcessLookupError"
    and "communicate_after_kill run = WaitTimeout \<or>
         (\<exists>out err. communicate_after_kill run = Communicated out err)"
  shows "\<exists>out err. wait_for_output run = Inr (out, err, True)"
  using assms by (auto simp: wait_for_output_def)

lemma enforce_limit_returns:
  assumes "0 \<le> max_size"
  shows "\<exists>out' err' tr. enforce_limit max_size out err = Inr (out', err', tr)"
  using assms by (auto simp: enforce_limit_def Let_def)

text \<open>
  A command that outlives its timeout, is killed and is reaped by the second wait has
  the return code the operating system gives it, \<^verbatim>\<open>-9\<close>, not 124.
\<close>

theorem timeout_exit_code_counterexample:
  "execute default_settings (example_env killed_run) ''sleep 5'' (Some 1) None False empty_world =
     (Inr \<lparr>command_text = ''sleep 5'', returncode = - 9, stdout = [], stderr = [],
           execution_time = 1, timed_out = True, truncated = False,
           result_working_directory = ''/home/user''\<rparr>,
      \<lparr>spawned = [(''sleep 5'', ''/home/user'')],
        history = [''2024-05-01T12:00:00 | FAILED | sleep 5'' @ [CHR 0x0A]]\<rparr>)"
  by (simp add: execute_def run_command_def try_execute_def resolve_cwd_def default_settings_def
      default_execution_def default_logging_def example_env_def killed_run_def empty_world_def
      wait_for_output_def enforce_limit_def result_returncode_def log_command_def success_def)

text \<open>
  C1, as the code has it. When the command outlives its timeout, killing the process
  group raises nothing but \<^verbatim>\<open>ProcessLookupError\<close>, the second wait returns or times out,
  and \<^verbatim>\<open>max_output_size\<close> is not negative, \<^const>\<open>execute\<close> returns a result with
  \<^verbatim>\<open>timed_out\<close> true and \<^verbatim>\<open>success\<close> false. Its return code is the process's own when
  that is a number other than zero, and 124 when the process has no return code yet or
  returned zero.
\<close>

theorem timed_out_result:
  assumes "resolve_cwd st env cwd = Inr d"
    and "run = shell env command d (case timeout of None \<Rightarrow> command_timeout (execution st) | Some t \<Rightarrow> t)"
    and "spawn run = Spawned"
    and "communicate run = WaitTimeout"
    and "kill_group run = Killed \<or> kill_group run = ProcessLookupError"
    and "communicate_after_kill run = WaitTimeout \<or>
         (\<exists>out err. communicate_after_kill run = Communicated out err)"
    and "0 \<le> max_output_size (execution st)"
  shows "\<exists>r. fst (execute st env command timeout cwd False w) = Inr r \<and> timed_out r \<and> \<not> success r
           \<and> returncode r =
                (case exit_status run of None \<Rightarrow> 124 | Some n \<Rightarrow> if n = 0 then 124 else n)"
proof -
  obtain out err where o: "wait_for_output run = Inr (out, err, True)"
    using wait_for_output_timeout[OF assms(4,5,6)] by blast
  obtain out' err' tr
    where e: "enforce_limit (max_output_size (execution st)) out err = Inr (out', err', tr)"
    using enforce_limit_returns[OF assms(7)] by blast
  show ?thesis
    unfolding execute_completed[OF assms(1,2,3) o e]
    by (simp add: success_def result_returncode_def split: option.splits)
qed

theorem timed_out_result_witness:
  "(\<exists>r. fst (execute default_settings (example_env killed_run) ''sleep 5'' (Some 1) None False
             empty_world) = Inr r \<and> timed_out r \<and> \<not> success r \<and> returncode r = - 9)
   \<and> (\<exists>r. fst (execute default_settings (example_env unreaped_run) ''sleep 5'' (Some 1) None False
             empty_world) = Inr r \<and> timed_out r \<and> \<not> success r \<and> returncode r = 124)"
proof -
  have m: "0 \<le> max_output_size (execution default_settings)"
    by (simp add: default_settings_def default_execution_def)
  have a: "\<exists>r. fst (execute default_settings (example_env killed_run) ''sleep 5'' (Some 1) None False
             empty_world) = Inr r \<and> timed_out r \<and> \<not> success r \<and> returncode r = - 9"
    using timed_out_result[of default_settings "example_env killed_run" None "''/home/user''"
        killed_run "''sleep 5''" "Some 1" empty_world] m
    by (simp add: resolve_cwd_def default_settings_def default_execution_def example_env_def
        killed_run_def)
  have b: "\<exists>r. fst (execute default_settings (example_env unreaped_run) ''sleep 5'' (Some 1) None False
             empty_world) = Inr r \<and> timed_out r \<and> \<not> success r \<and> returncode r = 124"
    using timed_out_result[of default_settings "example_env unreaped_run" None "''/home/user''"
        unreaped_run "''sleep 5''" "Some 1" empty_world] m
    by (simp add: resolve_cwd_def default_settings_def default_execution_def example_env_def
        unreaped_run_def)
  show ?thesis using a b by blast
qed

text \<open>Below \<^verbatim>\<open>2 ** 53\<close> the rounding does not reach the next integer: \<^verbatim>\<open>int(a / b)\<close> is the
  floor of the quotient.\<close>

lemma bit_length_bounds:
  "0 < n \<Longrightarrow> 2 ^ (bit_length n - 1) \<le> n \<and> n < 2 ^ bit_length n"
proof (induction n rule: bit_length.induct)
  case (1 n)
  show ?case
  proof (cases "n div 2 = 0")
    case True
    then have "n = 1" using "1.prems" by presburger
    then show ?thesis by (simp add: bit_length.simps)
  next
    case False
    then have p: "0 < n div 2" using "1.prems" by presburger
    have ih: "2 ^ (bit_length (n div 2) - 1) \<le> n div 2 \<and> n div 2 < 2 ^ bit_length (n div 2)"
      using "1.IH" "1.prems" p by simp
    have k: "0 < bit_length (n div 2)" using p by (subst bit_length.simps) simp
    have b: "bit_length n = Suc (bit_length (n div 2))"
      using "1.prems" by (subst bit_length.simps) simp
    have "(2::int) ^ bit_length (n div 2) = 2 * 2 ^ (bit_length (n div 2) - 1)"
      using k by (cases "bit_length (n div 2)") simp_all
    then have lo: "2 ^ bit_length (n div 2) \<le> n" using ih by presburger
    have hi: "n < 2 * 2 ^ bit_length (n div 2)" using ih by presburger
    show ?thesis using lo hi b by simp
  qed
qed

lemma quotient_exponent_le:
  assumes "0 < a" and "0 < b"
  shows "scaled_le b (quotient_exponent a b) a"
proof -
  let ?d = "int (bit_length a) - int (bit_length b)"
  have ba: "2 ^ (bit_length a - 1) \<le> a" using bit_length_bounds[OF assms(1)] by simp
  have bb: "b < 2 ^ bit_length b" using bit_length_bounds[OF assms(2)] by simp
  have la: "0 < bit_length a" using assms(1) by (subst bit_length.simps) simp
  show ?thesis
  proof (cases "scaled_le b ?d a")
    case True
    then show ?thesis by (simp add: quotient_exponent_def)
  next
    case False
    then have e: "quotient_exponent a b = ?d - 1" by (simp add: quotient_exponent_def)
    show ?thesis
    proof (cases "0 \<le> ?d - 1")
      case True
      then have n: "nat (?d - 1) + bit_length b = bit_length a - 1" using la by linarith
      have "b * 2 ^ nat (?d - 1) \<le> 2 ^ bit_length b * 2 ^ nat (?d - 1)"
        using bb by (intro mult_right_mono) simp_all
      also have "\<dots> = 2 ^ (bit_length a - 1)"
        using n by (simp add: power_add[symmetric] add.commute)
      finally show ?thesis using ba True e by (simp add: scaled_le_def)
    next
      case False
      then have n: "nat (- (?d - 1)) + (bit_length a - 1) = bit_length b" using la by linarith
      have "b \<le> 2 ^ bit_length b" using bb by simp
      also have "\<dots> = 2 ^ (bit_length a - 1) * 2 ^ nat (- (?d - 1))"
        using n by (simp add: power_add[symmetric] add.commute)
      also have "\<dots> \<le> a * 2 ^ nat (- (?d - 1))"
        using ba by (intro mult_right_mono) simp_all
      finally show ?thesis using False e by (simp add: scaled_le_def)
    qed
  qed
qed

lemma round_half_even_bounds:
  "num div den \<le> round_half_even num den \<and> round_half_even num den \<le> num div den + 1
   \<and> (2 * (num mod den) < den \<longrightarrow> round_half_even num den = num div den)"
  by (simp add: round_half_even_def Let_def)

lemma rounded_quotient_exact:
  assumes "0 \<le> a" and "0 < b" and "b < 2 * 2 ^ s"
  shows "round_half_even (a * 2 ^ s) b div 2 ^ s = a div b"
proof -
  let ?P = "(2::int) ^ s"
  let ?n = "a div b"
  let ?f = "(a * ?P) div b"
  let ?m = "round_half_even (a * ?P) b"
  have P: "0 < ?P" by simp
  have dm: "?n * b + a mod b = a" by simp
  have m0: "0 \<le> a mod b" and m1: "a mod b < b" using assms(2) by simp_all
  have a1: "?n * b \<le> a" using dm m0 by linarith
  have "(?n + 1) * b = ?n * b + b" by (simp add: algebra_simps)
  then have a2: "a < (?n + 1) * b" using dm m1 by linarith
  have "(?n * ?P) * b \<le> a * ?P" using a1 P by (simp add: mult.commute mult.left_commute)
  then have "((?n * ?P) * b) div b \<le> ?f" using assms(2) by (intro zdiv_mono1) simp_all
  then have f1: "?n * ?P \<le> ?f" using assms(2) by simp
  have lt: "a * ?P < ((?n + 1) * ?P) * b"
    using a2 P by (simp add: mult.commute mult.left_commute)
  have f2: "?f < (?n + 1) * ?P"
  proof (rule ccontr)
    assume "\<not> ?f < (?n + 1) * ?P"
    then have "((?n + 1) * ?P) * b \<le> ?f * b"
      using assms(2) by (intro mult_right_mono) simp_all
    moreover have "?f * b + (a * ?P) mod b = a * ?P" by simp
    moreover have "0 \<le> (a * ?P) mod b" using assms(2) by simp
    ultimately show False using lt by linarith
  qed
  have m_lo: "?n * ?P \<le> ?m" using f1 round_half_even_bounds[of "a * ?P" b] by linarith
  have m_hi: "?m < (?n + 1) * ?P"
  proof (cases "?f + 1 < (?n + 1) * ?P")
    case True
    then show ?thesis using round_half_even_bounds[of "a * ?P" b] by linarith
  next
    case False
    then have f: "?f = (?n + 1) * ?P - 1" using f2 by linarith
    have "(a * ?P) mod b = a * ?P - ?f * b"
      by (metis add_diff_cancel_left' div_mult_mod_eq mult.commute)
    also have "\<dots> = b - ?P * ((?n + 1) * b - a)" unfolding f by (simp add: algebra_simps)
    also have "\<dots> \<le> b - ?P"
    proof -
      have "1 \<le> (?n + 1) * b - a" using a2 by linarith
      then have "?P * 1 \<le> ?P * ((?n + 1) * b - a)" using P by (intro mult_left_mono) simp_all
      then show ?thesis by simp
    qed
    finally have "2 * ((a * ?P) mod b) < b" using assms(3) by linarith
    then have "?m = ?f" using round_half_even_bounds[of "a * ?P" b] by blast
    then show ?thesis using f2 by simp
  qed
  have "?m = ?P * ?n + (?m - ?n * ?P)" by (simp add: mult.commute)
  moreover have "0 \<le> ?m - ?n * ?P" using m_lo by simp
  moreover have "?m - ?n * ?P < ?P" using m_hi by (simp add: algebra_simps)
  ultimately show ?thesis by (metis int_div_pos_eq)
qed

lemma int_of_true_division_exact:
  assumes "0 \<le> a" and "a < 2 ^ 53" and "0 < b"
  shows "int_of_true_division a b = a div b"
proof (cases "a = 0")
  case True
  then show ?thesis by (simp add: int_of_true_division_def)
next
  case False
  then have pa: "0 < a" using assms(1) by simp
  let ?e = "quotient_exponent a b"
  have le: "scaled_le b ?e a" using quotient_exponent_le[OF pa assms(3)] .
  have e52: "?e \<le> 52"
  proof (rule ccontr)
    assume "\<not> ?e \<le> 52"
    then have g: "53 \<le> ?e" by simp
    then have "b * 2 ^ nat ?e \<le> a" using le by (simp add: scaled_le_def)
    moreover have "(2::int) ^ 53 \<le> 2 ^ nat ?e" using g by (intro power_increasing) simp_all
    moreover have "(2::int) ^ nat ?e \<le> b * 2 ^ nat ?e" using assms(3) by simp
    ultimately show False using assms(2) by linarith
  qed
  have bb: "b < 2 * 2 ^ nat (52 - ?e)"
  proof (cases "0 \<le> ?e")
    case True
    then have "b * 2 ^ nat ?e < 2 ^ 53" using le assms(2) by (simp add: scaled_le_def)
    moreover have "(2::int) ^ 53 = (2 * 2 ^ nat (52 - ?e)) * 2 ^ nat ?e"
    proof -
      have "Suc (nat (52 - ?e)) + nat ?e = 53" using True e52 by linarith
      then have "(2::int) ^ 53 = 2 ^ (Suc (nat (52 - ?e)) + nat ?e)" by simp
      then show ?thesis by (simp only: power_add power_Suc)
    qed
    ultimately have "b * 2 ^ nat ?e < (2 * 2 ^ nat (52 - ?e)) * 2 ^ nat ?e" by (simp only:)
    moreover have "(0::int) < 2 ^ nat ?e" by simp
    ultimately show ?thesis by (simp only: mult_less_cancel_right_pos)
  next
    case False
    then have "b \<le> a * 2 ^ nat (- ?e)" using le by (simp add: scaled_le_def)
    also have "\<dots> < 2 ^ 53 * 2 ^ nat (- ?e)"
      using assms(2) by (intro mult_strict_right_mono) simp_all
    also have "\<dots> = 2 * 2 ^ nat (52 - ?e)"
    proof -
      have h: "53 + nat (- ?e) = Suc (nat (52 - ?e))" using False by linarith
      have "(2::int) ^ 53 * 2 ^ nat (- ?e) = 2 ^ (53 + nat (- ?e))" by (simp only: power_add)
      also have "\<dots> = 2 ^ Suc (nat (52 - ?e))" by (simp only: h)
      also have "\<dots> = 2 * 2 ^ nat (52 - ?e)" by (simp only: power_Suc)
      finally show ?thesis .
    qed
    finally show ?thesis .
  qed
  have "round_half_even (a * 2 ^ nat (52 - ?e)) b div 2 ^ nat (52 - ?e) = a div b"
    using rounded_quotient_exact[OF assms(1,3) bb] .
  then show ?thesis using pa e52 by (simp add: int_of_true_division_def Let_def)
qed

lemma stdout_limit_floor:
  assumes "0 \<le> m" and "m * int (length out) < 2 ^ 53"
    and "0 < int (length out) + int (length err)"
  shows "stdout_limit m out err =
           (m * int (length out)) div (int (length out) + int (length err))"
proof -
  have "0 \<le> m * int (length out)" using assms(1) by simp
  then show ?thesis
    unfolding stdout_limit_def using assms(2,3) by (rule int_of_true_division_exact)
qed

lemma stdout_limit_bounds:
  assumes "0 \<le> m" and "m * int (length out) < 2 ^ 53"
    and "0 < int (length out) + int (length err)"
  shows "0 \<le> stdout_limit m out err \<and> stdout_limit m out err \<le> m"
proof -
  let ?t = "int (length out) + int (length err)"
  have f: "stdout_limit m out err = (m * int (length out)) div ?t"
    using assms by (rule stdout_limit_floor)
  have "0 \<le> m * int (length out)" using assms(1) by simp
  then have lo: "0 \<le> (m * int (length out)) div ?t"
    using assms(3) by (simp add: pos_imp_zdiv_nonneg_iff)
  have "m * int (length out) \<le> m * ?t"
    using assms(1) by (intro mult_left_mono) simp_all
  then have "(m * int (length out)) div ?t \<le> (m * ?t) div ?t"
    using assms(3) by (intro zdiv_mono1) simp_all
  also have "\<dots> = m" using assms(3) by simp
  finally show ?thesis using lo f by simp
qed

lemma enforce_limit_truncates:
  assumes "0 \<le> m" and "m * int (length out) < 2 ^ 53"
    and "m < int (length out) + int (length err)"
  shows "enforce_limit m out err =
           Inr (take (nat (stdout_limit m out err)) out @ marker,
                take (nat (stderr_limit m out err)) err @ marker, True)"
proof -
  have t: "0 < int (length out) + int (length err)" using assms(1,3) by linarith
  have b: "0 \<le> stdout_limit m out err" "stdout_limit m out err \<le> m"
    using stdout_limit_bounds[OF assms(1,2) t] by simp_all
  then have e: "0 \<le> stderr_limit m out err" by (simp add: stderr_limit_def)
  show ?thesis
    using assms(1,3) t b e
    by (simp add: enforce_limit_def Let_def slice_to_def del: of_nat_add)
qed

text \<open>
  Where the code departs from the floor formula and from the bound on the length. With
  a limit of -7 and one and two characters of output, \<^verbatim>\<open>int(-7 / 3)\<close> is -2 while the
  floor is -3, both streams are cut to nothing, and the result is 54 characters long,
  more than -7 plus two markers. With a limit of 80530637 and 134217723 and 5
  characters, the double nearest to the quotient is 80530634 while the floor is
  80530633.
\<close>

theorem truncation_counterexample:
  "stdout_limit (- 7) ''a'' ''bc'' = - 2
   \<and> (- 7 * int (length ''a'')) div (int (length ''a'') + int (length ''bc'')) = - 3
   \<and> execute negative_limit_settings (example_env short_run) ''cmd'' None None False empty_world =
       (Inr \<lparr>command_text = ''cmd'', returncode = 0, stdout = marker, stderr = marker,
             execution_time = 1, timed_out = False, truncated = True,
             result_working_directory = ''/home/user''\<rparr>,
        \<lparr>spawned = [(''cmd'', ''/home/user'')],
          history = [''2024-05-01T12:00:00 | SUCCESS | cmd'' @ [CHR 0x0A]]\<rparr>)
   \<and> - 7 + 2 * int (length marker) < int (length marker + length marker)
   \<and> stdout_limit 80530637 (replicate 134217723 CHR ''o'') (replicate 5 CHR ''e'') = 80530634
   \<and> (80530637 * int (length (replicate 134217723 CHR ''o'')))
        div (int (length (replicate 134217723 CHR ''o'')) + int (length (replicate 5 CHR ''e'')))
       = 80530633"
proof -
  have d1: "int_of_true_division (- 7) 3 = - 2" by code_simp
  have a: "stdout_limit (- 7) ''a'' ''bc'' = - 2" by (simp add: stdout_limit_def d1)
  have b: "(- 7 * int (length ''a'')) div (int (length ''a'') + int (length ''bc'')) = - 3"
    by simp
  have c: "execute negative_limit_settings (example_env short_run) ''cmd'' None None False empty_world =
       (Inr \<lparr>command_text = ''cmd'', returncode = 0, stdout = marker, stderr = marker,
             execution_time = 1, timed_out = False, truncated = True,
             result_working_directory = ''/home/user''\<rparr>,
        \<lparr>spawned = [(''cmd'', ''/home/user'')],
          history = [''2024-05-01T12:00:00 | SUCCESS | cmd'' @ [CHR 0x0A]]\<rparr>)"
    by (simp add: execute_def run_command_def try_execute_def resolve_cwd_def
        negative_limit_settings_def default_settings_def default_execution_def
        default_logging_def example_env_def short_run_def empty_world_def wait_for_output_def
        enforce_limit_def a stderr_limit_def slice_to_def result_returncode_def log_command_def
        success_def)
  have d: "- 7 + 2 * int (length marker) < int (length marker + length marker)" by simp
  have d2: "int_of_true_division (80530637 * 134217723) (134217723 + 5) = 80530634"
    by code_simp
  have e: "stdout_limit 80530637 (replicate 134217723 CHR ''o'') (replicate 5 CHR ''e'') = 80530634"
    using d2 by (simp add: stdout_limit_def)
  have f: "(80530637 * int (length (replicate 134217723 CHR ''o'')))
        div (int (length (replicate 134217723 CHR ''o'')) + int (length (replicate 5 CHR ''e'')))
       = 80530633"
    by simp
  show ?thesis using a b c d e f by blast
qed

text \<open>
  C2, as the code has it. When the decoded output is longer than a non-negative
  \<^verbatim>\<open>max_output_size\<close> and \<^verbatim>\<open>max_output_size * len(stdout)\<close> is below \<^verbatim>\<open>2 ** 53\<close>,
  \<^const>\<open>execute\<close> keeps the first \<^const>\<open>stdout_limit\<close> characters of standard output and the
  first \<^const>\<open>stderr_limit\<close> characters of standard error, where \<^const>\<open>stdout_limit\<close> is the
  floor of \<^verbatim>\<open>max_output_size * len(stdout) / total\<close> and \<^const>\<open>stderr_limit\<close> is
  \<^verbatim>\<open>max_output_size\<close> minus that; it appends the marker to both, sets \<^verbatim>\<open>truncated\<close>, and
  the two streams together are no longer than \<^verbatim>\<open>max_output_size\<close> plus two markers.
  With a limit of 100 and 600 and 400 characters, \<^const>\<open>stdout_limit\<close> is 60.
\<close>

theorem output_truncation:
  assumes "resolve_cwd st env cwd = Inr d"
    and "run = shell env command d (case timeout of None \<Rightarrow> command_timeout (execution st) | Some t \<Rightarrow> t)"
    and "spawn run = Spawned"
    and "wait_for_output run = Inr (out, err, t_flag)"
    and "0 \<le> max_output_size (execution st)"
    and "max_output_size (execution st) * int (length out) < 2 ^ 53"
    and "max_output_size (execution st) < int (length out) + int (length err)"
  shows "\<exists>r. fst (execute st env command timeout cwd False w) = Inr r \<and> truncated r
           \<and> stdout r = take (nat (stdout_limit (max_output_size (execution st)) out err)) out @ marker
           \<and> stderr r = take (nat (stderr_limit (max_output_size (execution st)) out err)) err @ marker
           \<and> stdout_limit (max_output_size (execution st)) out err =
               (max_output_size (execution st) * int (length out))
                 div (int (length out) + int (length err))
           \<and> stderr_limit (max_output_size (execution st)) out err =
               max_output_size (execution st) - stdout_limit (max_output_size (execution st)) out err
           \<and> int (length (stdout r) + length (stderr r))
               \<le> max_output_size (execution st) + 2 * int (length marker)
           \<and> stdout_limit 100 (replicate 600 a) (replicate 400 b) = 60"
proof -
  let ?m = "max_output_size (execution st)"
  have t: "0 < int (length out) + int (length err)" using assms(5,7) by linarith
  have b: "0 \<le> stdout_limit ?m out err" "stdout_limit ?m out err \<le> ?m"
    using stdout_limit_bounds[OF assms(5,6) t] by simp_all
  have e: "enforce_limit ?m out err =
           Inr (take (nat (stdout_limit ?m out err)) out @ marker,
                take (nat (stderr_limit ?m out err)) err @ marker, True)"
    using enforce_limit_truncates[OF assms(5,6,7)] .
  have l1: "int (length (take (nat (stdout_limit ?m out err)) out)) \<le> stdout_limit ?m out err"
    using b(1) by simp
  have l2: "int (length (take (nat (stderr_limit ?m out err)) err)) \<le> stderr_limit ?m out err"
    using b(2) by (simp add: stderr_limit_def)
  have len: "int (length (take (nat (stdout_limit ?m out err)) out @ marker)
               + length (take (nat (stderr_limit ?m out err)) err @ marker))
             \<le> ?m + 2 * int (length marker)"
    using l1 l2 by (simp add: stderr_limit_def del: length_take)
  have c: "stdout_limit 100 (replicate 600 a) (replicate 400 b) = 60"
    using stdout_limit_floor[of 100 "replicate 600 a" "replicate 400 b"] by simp
  show ?thesis
    unfolding execute_completed[OF assms(1,2,3,4) e]
    using len c stdout_limit_floor[OF assms(5,6) t]
    by (simp add: stderr_limit_def del: length_take length_append)
qed

theorem output_truncation_witness:
  "\<exists>r. fst (execute small_limit_settings (example_env noisy_run) ''make'' None None False
            empty_world) = Inr r \<and> truncated r
        \<and> stdout r = replicate 60 CHR ''o'' @ marker
        \<and> stderr r = replicate 40 CHR ''e'' @ marker
        \<and> length (stdout r) + length (stderr r) = 154"
proof -
  have r: "resolve_cwd small_limit_settings (example_env noisy_run) None = Inr ''/home/user''"
    by (simp add: resolve_cwd_def small_limit_settings_def default_settings_def
        default_execution_def example_env_def)
  have m: "max_output_size (execution small_limit_settings) = 100"
    by (simp add: small_limit_settings_def default_settings_def default_execution_def)
  have s: "shell (example_env noisy_run) ''make'' ''/home/user''
             (case None of None \<Rightarrow> command_timeout (execution small_limit_settings) | Some t \<Rightarrow> t)
           = noisy_run"
    by (simp add: example_env_def)
  have sp: "spawn noisy_run = Spawned" by (simp add: noisy_run_def)
  have wo: "wait_for_output noisy_run =
      Inr (replicate 600 CHR ''o'', replicate 400 CHR ''e'', False)"
    by (simp add: wait_for_output_def noisy_run_def)
  have sl: "stdout_limit 100 (replicate 600 CHR ''o'') (replicate 400 CHR ''e'') = 60"
    using stdout_limit_floor[of 100 "replicate 600 CHR ''o''" "replicate 400 CHR ''e''"] by simp
  have el: "stderr_limit 100 (replicate 600 CHR ''o'') (replicate 400 CHR ''e'') = 40"
    by (simp add: stderr_limit_def sl)
  have lm: "length marker = 27" by (simp add: marker_def)
  have "\<exists>r. fst (execute small_limit_settings (example_env noisy_run) ''make'' None None False
            empty_world) = Inr r \<and> truncated r
        \<and> stdout r = replicate 60 CHR ''o'' @ marker
        \<and> stderr r = replicate 40 CHR ''e'' @ marker"
    using output_truncation[of small_limit_settings "example_env noisy_run" None "''/home/user''"
        noisy_run "''make''" None "replicate 600 CHR ''o''" "replicate 400 CHR ''e''" False
        empty_world, where a = "CHR ''o''" and b = "CHR ''e''"]
      r s[symmetric] sp wo
    by (simp add: m sl el) blast
  then obtain r where
    "fst (execute small_limit_settings (example_env noisy_run) ''make'' None None False
            empty_world) = Inr r" "truncated r" "stdout r = replicate 60 CHR ''o'' @ marker"
    "stderr r = replicate 40 CHR ''e'' @ marker"
    by blast
  then show ?thesis by (intro exI[of _ r]) (simp add: lm)
qed

text \<open>
  C3. The working directory is resolved before the \<^verbatim>\<open>try\<close> block. With no directory
  given or configured, in a process whose current directory has been removed,
  \<^verbatim>\<open>os.getcwd()\<close> raises and the exception leaves \<^const>\<open>execute\<close>: no result is returned.
\<close>

theorem execute_raises_when_getcwd_fails:
  "execute default_settings removed_cwd_env ''ls'' None None False empty_world =
     (Inl (Exception ''[Errno 2] No such file or directory''), empty_world)"
  by (simp add: execute_def resolve_cwd_def default_settings_def default_execution_def
      removed_cwd_env_def example_env_def)

text \<open>Once the working directory is resolved, every outcome of the operating system
  ends in a result, and a failure to start the process gives return code 1, the message
  in \<^verbatim>\<open>stderr\<close>, and no process.\<close>

lemma execute_returns_result:
  assumes "resolve_cwd st env cwd = Inr d"
  shows "\<exists>r w'. execute st env command timeout cwd dry_run w = (Inr r, w')"
  using assms by (simp add: execute_def split: prod.splits)

lemma execute_spawn_failure:
  assumes "resolve_cwd st env cwd = Inr d"
    and "spawn (shell env command d (case timeout of None \<Rightarrow> command_timeout (execution st) | Some t \<Rightarrow> t)) = SpawnRaises m"
  shows "\<exists>r w'. execute st env command timeout cwd False w = (Inr r, w') \<and> returncode r = 1
           \<and> stderr r = ''Execution error: '' @ m \<and> stdout r = [] \<and> \<not> success r
           \<and> spawned w' = spawned w"
  using assms
  by (simp add: execute_def run_command_def try_execute_def Let_def log_command_def success_def)

text \<open>
  C10. The working directory is resolved before the dry-run branch as well. With no
  directory given or configured, in a process whose current directory has been removed,
  a dry run raises the exception of \<^verbatim>\<open>os.getcwd()\<close> instead of returning its result.
\<close>

theorem dry_run_raises_when_getcwd_fails:
  "execute default_settings removed_cwd_env ''ls'' None None True empty_world =
     (Inl (Exception ''[Errno 2] No such file or directory''), empty_world)"
  by (simp add: execute_def resolve_cwd_def default_settings_def default_execution_def
      removed_cwd_env_def example_env_def)

text \<open>A dry run starts no process and writes no history line, for every command. Once
  the working directory is resolved (the argument, else the configured directory, else
  \<^verbatim>\<open>os.getcwd()\<close>), it returns a result with return code 0, \<^verbatim>\<open>success\<close> true,
  \<^verbatim>\<open>execution_time\<close> zero and that directory.\<close>

lemma dry_run_spawns_nothing:
  "snd (execute st env command timeout cwd True w) = w \<and>
   (\<forall>d. resolve_cwd st env cwd = Inr d \<longrightarrow>
      (\<exists>r. fst (execute st env command timeout cwd True w) = Inr r \<and> returncode r = 0 \<and> success r
          \<and> execution_time r = 0 \<and> result_working_directory r = d \<and> \<not> timed_out r))
   \<and> (\<forall>d. cwd = Some d \<longrightarrow> resolve_cwd st env cwd = Inr d)
   \<and> (\<forall>d. cwd = None \<and> working_directory (execution st) = Some d \<and> d \<noteq> [] \<longrightarrow>
        resolve_cwd st env cwd = Inr d)
   \<and> (cwd = None \<and> (working_directory (execution st) = None \<or>
                      working_directory (execution st) = Some []) \<longrightarrow>
        resolve_cwd st env cwd = getcwd env)"
  by (auto simp: execute_def dry_run_result_def success_def resolve_cwd_def split: sum.splits)

lemma dry_run_spawns_nothing_example:
  "execute default_settings (example_env noisy_run) ''rm -rf /'' None (Some ''/tmp'') True empty_world =
     (Inr (dry_run_result ''rm -rf /'' ''/tmp''), empty_world)
   \<and> (\<exists>r. fst (execute default_settings (example_env noisy_run) ''rm -rf /'' None None True
               empty_world) = Inr r \<and> returncode r = 0 \<and> success r \<and> execution_time r = 0
            \<and> result_working_directory r = ''/home/user'')"
proof -
  have r: "resolve_cwd default_settings (example_env noisy_run) None = Inr ''/home/user''"
    by (simp add: resolve_cwd_def default_settings_def default_execution_def example_env_def)
  have b: "\<exists>r. fst (execute default_settings (example_env noisy_run) ''rm -rf /'' None None True
               empty_world) = Inr r \<and> returncode r = 0 \<and> success r \<and> execution_time r = 0
            \<and> result_working_directory r = ''/home/user''"
    using dry_run_spawns_nothing[of default_settings "example_env noisy_run" "''rm -rf /''" None None
        empty_world] r by blast
  have a: "execute default_settings (example_env noisy_run) ''rm -rf /'' None (Some ''/tmp'') True empty_world =
     (Inr (dry_run_result ''rm -rf /'' ''/tmp''), empty_world)"
    by (simp add: execute_def resolve_cwd_def)
  show ?thesis using a b by blast
qed

end
